theory Spec2Isabelle
  imports Main
begin

section \<open>The nightly release workflow\<close>

text \<open>
  The program is the GitHub Actions workflow \<^verbatim>\<open>Release Nightly\<close>: five jobs
  (\<^verbatim>\<open>create-nightly-release\<close>, the \<^verbatim>\<open>build\<close> matrix, \<^verbatim>\<open>build-mac-universal-binary\<close>,
  \<^verbatim>\<open>build-web\<close>, \<^verbatim>\<open>publish-aur-package\<close>), their \<^verbatim>\<open>needs\<close> and \<^verbatim>\<open>if\<close> keys, and the shell
  scripts of their \<^verbatim>\<open>run\<close> steps. External tools (curl, jq, date, cargo, the marketplace
  actions) are inputs of the model: what they return is given by an environment.
\<close>

subsection \<open>Shell helpers of the Activity check\<close>

text \<open>
  \<^verbatim>\<open>$(( a / b ))\<close>: bash arithmetic divides like C, truncating towards zero. The operands
  here are two outputs of \<^verbatim>\<open>date +%s\<close>, far from the 64-bit bounds, so \<open>int\<close> is used.
\<close>

definition bash_div :: "int \<Rightarrow> int \<Rightarrow> int" where
  "bash_div a b = sgn a * sgn b * (\<bar>a\<bar> div \<bar>b\<bar>)"

text \<open>The decimal text of an integer, as \<^verbatim>\<open>$days\<close> and \<^verbatim>\<open>$timestamp\<close> expand.\<close>

definition digit_char :: "nat \<Rightarrow> char" where
  "digit_char d = ''0123456789'' ! d"

function show_nat :: "nat \<Rightarrow> string" where
  "show_nat n = (if n < 10 then [digit_char n] else show_nat (n div 10) @ [digit_char (n mod 10)])"
  by pat_completeness auto
termination
  by (relation "measure (\<lambda>n. n)") auto

definition show_int :: "int \<Rightarrow> string" where
  "show_int i = (if i < 0 then CHR ''-'' # show_nat (nat (- i)) else show_nat (nat i))"

text \<open>
  \<^verbatim>\<open>[[ a < b ]]\<close>: inside \<^verbatim>\<open>[[ ]]\<close> the operator \<^verbatim>\<open><\<close> compares two strings, not two
  numbers. The comparison is by character code (the runner's locale is C.UTF-8).
\<close>

fun str_lt :: "string \<Rightarrow> string \<Rightarrow> bool" where
  "str_lt [] [] = False"
| "str_lt [] (y # ys) = True"
| "str_lt (x # xs) [] = False"
| "str_lt (x # xs) (y # ys) = ((of_char x :: nat) < of_char y \<or> (x = y \<and> str_lt xs ys))"

subsection \<open>The Activity check step\<close>

text \<open>
  What the commands of lines 25 to 30 of the script return, each as its exit status
  (and its standard output, read only when the status is 0): the
  \<^verbatim>\<open>curl | jq > file\<close> pipeline (under \<^verbatim>\<open>pipefail\<close> its status is non-zero when either
  member fails), the \<^verbatim>\<open>jq\<close> read of the committer date, the \<^verbatim>\<open>date -d\<close> conversion
  (which prints an integer), and the \<^verbatim>\<open>jq\<close> reads of the author and the URL.
\<close>

record lookup =
  fetch :: nat
  committer_date :: "nat \<times> string"
  timestamp :: "nat \<times> int"
  author :: "nat \<times> string"
  url :: "nat \<times> string"

text \<open>What a \<^verbatim>\<open>run\<close> step leaves: its exit status, the lines it echoed, and what it
  appended to \<^verbatim>\<open>$GITHUB_ENV\<close>.\<close>

record script_result =
  exit_status :: nat
  stdout :: "string list"
  github_env :: "(string \<times> string) list"

definition aborted :: "nat \<Rightarrow> script_result" where
  "aborted n = \<lparr>exit_status = n, stdout = [], github_env = []\<rparr>"

text \<open>
  The step declares \<^verbatim>\<open>shell: bash\<close>, which GitHub runs as
  \<^verbatim>\<open>bash --noprofile --norc -eo pipefail {0}\<close>: the script stops at the first command (or
  pipeline, or command substitution in an assignment) that exits non-zero, with that
  status; nothing has been echoed by then. \<open>event_name\<close> is \<^verbatim>\<open>github.event_name\<close>,
  \<open>now\<close> the output of \<^verbatim>\<open>date --utc +%s\<close>.
\<close>

definition activity_check :: "string \<Rightarrow> lookup \<Rightarrow> int \<Rightarrow> script_result" where
  "activity_check event_name l now =
    (if fetch l \<noteq> 0 then aborted (fetch l)
     else if fst (committer_date l) \<noteq> 0 then aborted (fst (committer_date l))
     else if fst (timestamp l) \<noteq> 0 then aborted (fst (timestamp l))
     else let ts = snd (timestamp l); days = bash_div (now - ts) 86400 in
     if fst (author l) \<noteq> 0 then aborted (fst (author l))
     else if fst (url l) \<noteq> 0 then aborted (fst (url l))
     else
     let line1 = ''Repository activity: '' @ show_int ts @ '' '' @ snd (author l)
                 @ '' '' @ snd (url l);
         (alive, line2) =
           (if event_name = ''repository_dispatch'' \<or> event_name = ''workflow_dispatch''
            then (1::nat, ''[WARNING] Ignoring activity check: workflow triggered manually.'')
            else if str_lt (show_int days) ''1''
            then (1, ''Repository active'')
            else (0, ''[WARNING] Repository not updated: event '' @ event_name
                       @ '' not allowed to modify stale repository.''))
     in \<lparr>exit_status = 0, stdout = [line1, line2],
         github_env = (if alive = 1 then [(''GHA_REPO_ALIVE'', ''true'')] else [])\<rparr>)"

text \<open>A lookup in which every command exits with status 0: the committer date read is
  \<open>d\<close>, \<^verbatim>\<open>date -d\<close> prints \<open>ts\<close>, the author is \<open>a\<close> and the URL \<open>u\<close>.\<close>

definition found :: "string \<Rightarrow> int \<Rightarrow> string \<Rightarrow> string \<Rightarrow> lookup" where
  "found d ts a u = \<lparr>fetch = 0, committer_date = (0, d), timestamp = (0, ts),
                     author = (0, a), url = (0, u)\<rparr>"

text \<open>The trigger is manual when the script's first test holds.\<close>

definition manual :: "string \<Rightarrow> bool" where
  "manual event_name \<longleftrightarrow> event_name = ''repository_dispatch'' \<or> event_name = ''workflow_dispatch''"

subsection \<open>Expressions\<close>

text \<open>
  Values of the expression language \<^verbatim>\<open>${{ }}\<close>. \<^verbatim>\<open>a && b\<close> is \<open>b\<close> when \<open>a\<close> is truthy and
  \<open>a\<close> otherwise, \<^verbatim>\<open>a || b\<close> is \<open>a\<close> when \<open>a\<close> is truthy and \<open>b\<close> otherwise; the empty
  string and \<^verbatim>\<open>false\<close> are falsy. \<^verbatim>\<open>startsWith\<close> ignores case.
\<close>

datatype val = Bool bool | Str string

fun truthy :: "val \<Rightarrow> bool" where
  "truthy (Bool b) = b"
| "truthy (Str s) = (s \<noteq> [])"

fun to_str :: "val \<Rightarrow> string" where
  "to_str (Str s) = s"
| "to_str (Bool b) = (if b then ''true'' else ''false'')"

definition and_op :: "val \<Rightarrow> val \<Rightarrow> val" where
  "and_op a b = (if truthy a then b else a)"

definition or_op :: "val \<Rightarrow> val \<Rightarrow> val" where
  "or_op a b = (if truthy a then a else b)"

definition lower :: "char \<Rightarrow> char" where
  "lower c = (if 65 \<le> (of_char c :: nat) \<and> (of_char c :: nat) \<le> 90
              then char_of ((of_char c :: nat) + 32) else c)"

definition startsWith :: "string \<Rightarrow> string \<Rightarrow> bool" where
  "startsWith s v \<longleftrightarrow> take (length v) (map lower s) = map lower v"

subsection \<open>The build matrix\<close>

text \<open>The five \<^verbatim>\<open>include\<close> entries of \<^verbatim>\<open>build.strategy.matrix\<close>, by \<^verbatim>\<open>build_name\<close>.\<close>

datatype build_name = Linux_x86_64 | Macos_x86_64 | Macos_aarch64 | Windows_x86_32 | Windows_x86_64

definition matrix_include :: "build_name list" where
  "matrix_include = [Linux_x86_64, Macos_x86_64, Macos_aarch64, Windows_x86_32, Windows_x86_64]"

fun build_name_str :: "build_name \<Rightarrow> string" where
  "build_name_str Linux_x86_64 = ''linux-x86_64''"
| "build_name_str Macos_x86_64 = ''macos-x86_64''"
| "build_name_str Macos_aarch64 = ''macos-aarch64''"
| "build_name_str Windows_x86_32 = ''windows-x86_32''"
| "build_name_str Windows_x86_64 = ''windows-x86_64''"

fun matrix_os :: "build_name \<Rightarrow> string" where
  "matrix_os Linux_x86_64 = ''ubuntu-latest''"
| "matrix_os Macos_x86_64 = ''macos-latest''"
| "matrix_os Macos_aarch64 = ''macos-latest''"
| "matrix_os Windows_x86_32 = ''windows-latest''"
| "matrix_os Windows_x86_64 = ''windows-latest''"

fun matrix_target :: "build_name \<Rightarrow> string option" where
  "matrix_target Linux_x86_64 = None"
| "matrix_target Macos_x86_64 = Some ''x86_64-apple-darwin''"
| "matrix_target Macos_aarch64 = Some ''aarch64-apple-darwin''"
| "matrix_target Windows_x86_32 = Some ''i686-pc-windows-msvc''"
| "matrix_target Windows_x86_64 = Some ''x86_64-pc-windows-msvc''"

fun matrix_RUSTFLAGS :: "build_name \<Rightarrow> string option" where
  "matrix_RUSTFLAGS Windows_x86_32 = Some ''-Ctarget-feature=+crt-static''"
| "matrix_RUSTFLAGS Windows_x86_64 = Some ''-Ctarget-feature=+crt-static''"
| "matrix_RUSTFLAGS _ = None"

text \<open>\<^verbatim>\<open>runner.os\<close> of the hosted runner that \<^verbatim>\<open>runs-on: ${{ matrix.os }}\<close> selects.\<close>

definition runner_os :: "build_name \<Rightarrow> string" where
  "runner_os t = (if matrix_os t = ''ubuntu-latest'' then ''Linux''
                  else if matrix_os t = ''macos-latest'' then ''macOS'' else ''Windows'')"

text \<open>\<^verbatim>\<open>build.env.PACKAGE_FILE\<close> (line 102) and the merger's \<^verbatim>\<open>PACKAGE_FILE\<close> (line 187);
  \<open>prefix\<close> is the output \<^verbatim>\<open>package_prefix\<close> of \<^verbatim>\<open>create-nightly-release\<close>.\<close>

definition package_ext :: "build_name \<Rightarrow> string" where
  "package_ext t =
     to_str (or_op (and_op (Bool (startsWith (build_name_str t) ''win'')) (Str ''zip''))
                   (Str ''tar.gz''))"

definition package_file :: "string \<Rightarrow> build_name \<Rightarrow> string" where
  "package_file prefix t = prefix @ ''-'' @ build_name_str t @ ''.'' @ package_ext t"

definition universal_package_file :: "string \<Rightarrow> string" where
  "universal_package_file prefix = prefix @ ''-macos-universal.tar.gz''"

subsection \<open>The time provider\<close>

text \<open>
  The marketplace action \<^verbatim>\<open>1466587594/get-current-time@v2\<close> is not part of the repository.
  Each step that uses it reads the clock when it runs and prints the UTC date of that
  instant in the given \<^verbatim>\<open>format\<close>: \<^verbatim>\<open>YYYY-MM-DD\<close>, \<^verbatim>\<open>YYYY_MM_DD\<close> or
  \<^verbatim>\<open>YYYY.MM.DD\<close>, which differ in the separator only. An instant is a number of seconds
  since the epoch; \<open>civil_from_days\<close> is the proleptic Gregorian date of a day number.
\<close>

definition civil_from_days :: "int \<Rightarrow> int \<times> int \<times> int" where
  "civil_from_days z0 =
     (let z = z0 + 719468;
          era = z div 146097;
          doe = z mod 146097;
          yoe = (doe - doe div 1460 + doe div 36524 - doe div 146096) div 365;
          doy = doe - (365 * yoe + yoe div 4 - yoe div 100);
          mp = (5 * doy + 2) div 153;
          d = doy - (153 * mp + 2) div 5 + 1;
          m = (if mp < 10 then mp + 3 else mp - 9);
          y = yoe + era * 400 + (if m \<le> 2 then 1 else 0)
      in (y, m, d))"

definition pad :: "nat \<Rightarrow> int \<Rightarrow> string" where
  "pad w n = replicate (w - length (show_int n)) CHR ''0'' @ show_int n"

definition render_date :: "char \<Rightarrow> int \<times> int \<times> int \<Rightarrow> string" where
  "render_date sep ymd = (case ymd of (y, m, d) \<Rightarrow> pad 4 y @ [sep] @ pad 2 m @ [sep] @ pad 2 d)"

definition format_time :: "char \<Rightarrow> int \<Rightarrow> string" where
  "format_time sep t = render_date sep (civil_from_days (t div 86400))"

subsection \<open>Jobs, steps and the environment\<close>

datatype job = Create_nightly_release | Build build_name | Build_mac_universal_binary
  | Build_web | Publish_aur_package

text \<open>The steps, by their \<^verbatim>\<open>name\<close> (the unnamed checkout of \<^verbatim>\<open>publish-aur-package\<close> is
  \<open>Checkout\<close>; the steps \<^verbatim>\<open>Build web\<close> and \<^verbatim>\<open>Publish AUR package\<close>, which share the name
  of their job, are \<open>Run_build_web\<close> and \<open>Deploy_AUR_package\<close>).\<close>

datatype step = Activity_check | Get_current_time_with_dashes
  | Get_current_time_with_underscores | Create_release
  | Clone_Ruffle_repo | Install_Rust_toolchain | Install_Linux_dependencies
  | Set_SDK_for_macOS_aarch64 | Cargo_build | Package_common | Package_Windows
  | Package_Linux | Upload_package | Upload_macOS_build_artifact
  | Download_aarch64_binary | Download_x86_64_binary | Make_universal_binary | Package_macOS
  | Setup_Node_js | Install_wasm_bindgen | Setup_conda | Install_binaryen | Run_build_web
  | Package_selfhosted | Upload_selfhosted | Upload_generic_extension
  | Upload_Firefox_extension | Clone_web_demo | Update_web_demo | Push_web_demo
  | Clone_JS_docs | Update_JS_docs | Push_JS_docs
  | Checkout | Get_current_time_with_dots | Update_PKGBUILD | Deploy_AUR_package

text \<open>
  What a run depends on from outside: the event that triggered it, what the lookup
  commands of the Activity check return, the instant at which each step reads the
  clock, and whether each step's external tool or action succeeds.
\<close>

record env =
  event_name :: string
  recency :: lookup
  clock :: "job \<Rightarrow> step \<Rightarrow> int"
  step_ok :: "job \<Rightarrow> step \<Rightarrow> bool"

text \<open>The outputs of the time steps and the strings built from them.\<close>

definition date_output :: "env \<Rightarrow> string" where
  "date_output e =
     format_time CHR ''_'' (clock e Create_nightly_release Get_current_time_with_underscores)"

definition package_prefix :: "env \<Rightarrow> string" where
  "package_prefix e = ''ruffle-nightly-'' @ date_output e"

definition tag_name :: "env \<Rightarrow> string" where
  "tag_name e =
     ''nightly-'' @ format_time CHR ''-'' (clock e Create_nightly_release Get_current_time_with_dashes)"

definition release_name :: "env \<Rightarrow> string" where
  "release_name e =
     ''Nightly '' @ format_time CHR ''-'' (clock e Create_nightly_release Get_current_time_with_dashes)"

definition mirror_commit_message :: "env \<Rightarrow> string" where
  "mirror_commit_message e = ''Nightly build '' @ date_output e"

definition pkgbuild_version :: "env \<Rightarrow> string" where
  "pkgbuild_version e =
     format_time CHR ''.'' (clock e Publish_aur_package Get_current_time_with_dots)"

definition aur_commit_message :: "env \<Rightarrow> string" where
  "aur_commit_message e =
     ''Update to Nightly '' @ format_time CHR ''-'' (clock e Publish_aur_package Get_current_time_with_dashes)"

subsection \<open>The state of a run\<close>

datatype conclusion = Success | Failure | Cancelled | Skipped

datatype jstatus = Pending | Running | Done conclusion

text \<open>
  The state of a workflow run: the status of every job, the steps executed so far
  (job, step, whether it succeeded), the output \<^verbatim>\<open>activity_check\<close> of
  \<^verbatim>\<open>create-nightly-release\<close>, and what the run has published: releases (tag, title),
  workflow artifacts, release assets, pushes to the mirrors (repository, commit message)
  and submissions to the AUR (version, commit message).
\<close>

record state =
  status :: "job \<Rightarrow> jstatus"
  trace :: "(job \<times> step \<times> bool) list"
  activity_check_out :: string
  releases :: "(string \<times> string) list"
  artifacts :: "string list"
  assets :: "string list"
  mirror_pushes :: "(string \<times> string) list"
  aur_submissions :: "(string \<times> string) list"

definition init :: state where
  "init = \<lparr>status = (\<lambda>j. Pending), trace = [], activity_check_out = [], releases = [],
           artifacts = [], assets = [], mirror_pushes = [], aur_submissions = []\<rparr>"

subsection \<open>The steps of each job\<close>

text \<open>The value of \<^verbatim>\<open>env.NAME\<close> in a job whose steps have appended \<open>e\<close> to
  \<^verbatim>\<open>$GITHUB_ENV\<close>: the empty string when the variable is not set.\<close>

definition env_lookup :: "(string \<times> string) list \<Rightarrow> string \<Rightarrow> string" where
  "env_lookup e k = (case map_of e k of None \<Rightarrow> [] | Some v \<Rightarrow> v)"

definition always :: "(string \<times> string) list \<Rightarrow> bool" where
  "always e = True"

text \<open>
  The steps of a job in order, each with its \<^verbatim>\<open>if\<close> (\<open>always\<close> when it has none).
  The operator \<^verbatim>\<open>==\<close> of the expression language ignores case; the strings compared
  here are written in one spelling only (\<^verbatim>\<open>true\<close>, the names of \<^verbatim>\<open>runner.os\<close> and of
  the targets), so they are compared as they are.
\<close>

fun job_steps :: "job \<Rightarrow> (step \<times> ((string \<times> string) list \<Rightarrow> bool)) list" where
  "job_steps Create_nightly_release =
     [(Activity_check, always),
      (Get_current_time_with_dashes, always),
      (Get_current_time_with_underscores, always),
      (Create_release, \<lambda>e. env_lookup e ''GHA_REPO_ALIVE'' = ''true'')]"
| "job_steps (Build t) =
     [(Clone_Ruffle_repo, always),
      (Install_Rust_toolchain, always),
      (Install_Linux_dependencies, \<lambda>e. runner_os t = ''Linux''),
      (Set_SDK_for_macOS_aarch64, \<lambda>e. matrix_target t = Some ''aarch64-apple-darwin''),
      (Cargo_build, always),
      (Package_common, always),
      (Package_Windows, \<lambda>e. runner_os t = ''Windows''),
      (Package_Linux, \<lambda>e. runner_os t = ''Linux''),
      (Upload_package, \<lambda>e. runner_os t \<noteq> ''macOS''),
      (Upload_macOS_build_artifact, \<lambda>e. runner_os t = ''macOS'')]"
| "job_steps Build_mac_universal_binary =
     [(Download_aarch64_binary, always),
      (Download_x86_64_binary, always),
      (Make_universal_binary, always),
      (Package_macOS, always),
      (Upload_package, always)]"
| "job_steps Build_web =
     [(Clone_Ruffle_repo, always), (Install_Rust_toolchain, always), (Setup_Node_js, always),
      (Install_wasm_bindgen, always), (Setup_conda, always), (Install_binaryen, always),
      (Run_build_web, always), (Package_selfhosted, always), (Upload_selfhosted, always),
      (Upload_generic_extension, always), (Upload_Firefox_extension, always),
      (Clone_web_demo, always), (Update_web_demo, always), (Push_web_demo, always),
      (Clone_JS_docs, always), (Update_JS_docs, always), (Push_JS_docs, always)]"
| "job_steps Publish_aur_package =
     [(Checkout, always), (Get_current_time_with_dashes, always),
      (Get_current_time_with_dots, always), (Update_PKGBUILD, always),
      (Deploy_AUR_package, always)]"

text \<open>
  Whether a step that runs succeeds. The Activity check succeeds when its script exits
  with status 0; \<^verbatim>\<open>actions/download-artifact\<close> fails when the run has no artifact of the
  given name; every other step succeeds when its external tool does.
\<close>

definition step_succeeds :: "env \<Rightarrow> state \<Rightarrow> job \<Rightarrow> step \<Rightarrow> bool" where
  "step_succeeds e s j st =
     (if st = Activity_check
      then exit_status (activity_check (event_name e) (recency e) (clock e j st)) = 0
      else if st = Download_aarch64_binary
      then ''macos-aarch64'' \<in> set (artifacts s) \<and> step_ok e j st
      else if st = Download_x86_64_binary
      then ''macos-x86_64'' \<in> set (artifacts s) \<and> step_ok e j st
      else step_ok e j st)"

text \<open>What a step appends to \<^verbatim>\<open>$GITHUB_ENV\<close>.\<close>

definition step_env :: "env \<Rightarrow> job \<Rightarrow> step \<Rightarrow> (string \<times> string) list" where
  "step_env e j st =
     (if st = Activity_check
      then github_env (activity_check (event_name e) (recency e) (clock e j st))
      else [])"

text \<open>What a step that succeeded publishes.\<close>

definition step_effect :: "env \<Rightarrow> job \<Rightarrow> step \<Rightarrow> state \<Rightarrow> state" where
  "step_effect e j st s =
     (case j of
        Create_nightly_release \<Rightarrow>
          if st = Create_release
          then s\<lparr>releases := releases s @ [(tag_name e, release_name e)]\<rparr> else s
      | Build t \<Rightarrow>
          if st = Upload_package
          then s\<lparr>assets := assets s @ [package_file (package_prefix e) t]\<rparr>
          else if st = Upload_macOS_build_artifact
          then s\<lparr>artifacts := artifacts s @ [build_name_str t]\<rparr> else s
      | Build_mac_universal_binary \<Rightarrow>
          if st = Upload_package
          then s\<lparr>assets := assets s @ [universal_package_file (package_prefix e)]\<rparr> else s
      | Build_web \<Rightarrow>
          if st = Upload_selfhosted
          then s\<lparr>assets := assets s @ [package_prefix e @ ''-web-selfhosted.zip'']\<rparr>
          else if st = Upload_generic_extension
          then s\<lparr>assets := assets s @ [package_prefix e @ ''-web-extension.zip'']\<rparr>
          else if st = Upload_Firefox_extension
          then s\<lparr>assets := assets s @ [package_prefix e @ ''-web-extension-firefox.xpi'']\<rparr>
          else if st = Push_web_demo
          then s\<lparr>mirror_pushes := mirror_pushes s @ [(''ruffle-rs/demo'', mirror_commit_message e)]\<rparr>
          else if st = Push_JS_docs
          then s\<lparr>mirror_pushes := mirror_pushes s @ [(''ruffle-rs/js-docs'', mirror_commit_message e)]\<rparr>
          else s
      | Publish_aur_package \<Rightarrow>
          if st = Deploy_AUR_package
          then s\<lparr>aur_submissions := aur_submissions s @ [(pkgbuild_version e, aur_commit_message e)]\<rparr>
          else s)"

text \<open>
  The steps of a job run in order. No step has a status function in its \<^verbatim>\<open>if\<close> nor
  \<^verbatim>\<open>continue-on-error\<close>, so a step runs when every earlier step of the job succeeded and
  its \<^verbatim>\<open>if\<close> holds. \<open>ok\<close> says that no step has failed so far, \<open>genv\<close> is what the job's
  steps have appended to \<^verbatim>\<open>$GITHUB_ENV\<close>.
\<close>

fun run_steps :: "env \<Rightarrow> job \<Rightarrow> (step \<times> ((string \<times> string) list \<Rightarrow> bool)) list \<Rightarrow> bool
    \<Rightarrow> (string \<times> string) list \<Rightarrow> state \<Rightarrow> bool \<times> (string \<times> string) list \<times> state" where
  "run_steps e j [] ok genv s = (ok, genv, s)"
| "run_steps e j ((st, cond) # rest) ok genv s =
     (if ok \<and> cond genv then
        (if step_succeeds e s j st
         then run_steps e j rest True (genv @ step_env e j st)
                ((step_effect e j st s)\<lparr>trace := trace s @ [(j, st, True)]\<rparr>)
         else run_steps e j rest False (genv @ step_env e j st)
                (s\<lparr>trace := trace s @ [(j, st, False)]\<rparr>))
      else run_steps e j rest ok genv s)"

subsection \<open>The job graph\<close>

text \<open>\<^verbatim>\<open>needs\<close>: a job that needs the matrix job \<^verbatim>\<open>build\<close> needs each of its five jobs.\<close>

fun needs :: "job \<Rightarrow> job list" where
  "needs Create_nightly_release = []"
| "needs (Build t) = [Create_nightly_release]"
| "needs Build_mac_universal_binary = Create_nightly_release # map Build matrix_include"
| "needs Build_web = [Create_nightly_release]"
| "needs Publish_aur_package = map Build matrix_include"

text \<open>The job-level \<^verbatim>\<open>if\<close> (lines 74 and 222); the other jobs have none.\<close>

fun job_if :: "job \<Rightarrow> state \<Rightarrow> bool" where
  "job_if (Build t) s = (activity_check_out s = ''true'')"
| "job_if Build_web s = (activity_check_out s = ''true'')"
| "job_if _ s = True"

text \<open>
  \<^verbatim>\<open>strategy.fail-fast\<close> of the matrix (line 76). When it is true, GitHub cancels the
  queued and running jobs of the matrix as soon as one of them has failed.
\<close>

definition fail_fast :: bool where
  "fail_fast = False"

definition cancelled_by_fail_fast :: "job \<Rightarrow> state \<Rightarrow> bool" where
  "cancelled_by_fail_fast j s =
     (case j of
        Build t \<Rightarrow> fail_fast \<and> list_ex (\<lambda>u. status s (Build u) = Done Failure) matrix_include
      | _ \<Rightarrow> False)"

definition is_done :: "jstatus \<Rightarrow> bool" where
  "is_done x = (case x of Done c \<Rightarrow> True | _ \<Rightarrow> False)"

text \<open>
  A pending job is taken up once every job it needs is done. No job-level \<^verbatim>\<open>if\<close> has a
  status function, so the job runs when every needed job succeeded and its \<^verbatim>\<open>if\<close>
  holds, and is skipped otherwise.
\<close>

definition start :: "job \<Rightarrow> state \<Rightarrow> state" where
  "start j s =
     (if status s j = Pending \<and> list_all (\<lambda>n. is_done (status s n)) (needs j)
      then s\<lparr>status := (status s)(j :=
             (if cancelled_by_fail_fast j s then Done Cancelled
              else if list_all (\<lambda>n. status s n = Done Success) (needs j) \<and> job_if j s
              then Running else Done Skipped))\<rparr>
      else s)"

text \<open>
  A running job completes: its steps run on the state of that moment, the job succeeds
  when no step failed, and \<^verbatim>\<open>create-nightly-release\<close> sets its output
  \<^verbatim>\<open>activity_check\<close> to \<^verbatim>\<open>env.GHA_REPO_ALIVE\<close>.
\<close>

definition finish :: "env \<Rightarrow> job \<Rightarrow> state \<Rightarrow> state" where
  "finish e j s =
     (if status s j = Running then
        (if cancelled_by_fail_fast j s then s\<lparr>status := (status s)(j := Done Cancelled)\<rparr>
         else
           (case run_steps e j (job_steps j) True [] s of
              (ok, genv, s') \<Rightarrow>
                s'\<lparr>status := (status s')(j := Done (if ok then Success else Failure)),
                   activity_check_out :=
                     (if j = Create_nightly_release then env_lookup genv ''GHA_REPO_ALIVE''
                      else activity_check_out s')\<rparr>))
      else s)"

text \<open>
  A run is a sequence of scheduling actions; jobs that do not need each other may be
  started and completed in any order. An action that is not enabled changes nothing.
\<close>

datatype action = Start job | Finish job

fun do_action :: "env \<Rightarrow> state \<Rightarrow> action \<Rightarrow> state" where
  "do_action e s (Start j) = start j s"
| "do_action e s (Finish j) = finish e j s"

fun exec :: "env \<Rightarrow> state \<Rightarrow> action list \<Rightarrow> state" where
  "exec e s [] = s"
| "exec e s (a # as) = exec e (do_action e s a) as"

definition all_jobs :: "job list" where
  "all_jobs = Create_nightly_release # map Build matrix_include
              @ [Build_mac_universal_binary, Build_web, Publish_aur_package]"

definition finished :: "state \<Rightarrow> bool" where
  "finished s = list_all (\<lambda>j. is_done (status s j)) all_jobs"

text \<open>The conclusion of a finished run: skipped jobs do not make it fail.\<close>

definition run_conclusion :: "state \<Rightarrow> conclusion" where
  "run_conclusion s =
     (if list_ex (\<lambda>j. status s j = Done Failure) all_jobs then Failure
      else if list_ex (\<lambda>j. status s j = Done Cancelled) all_jobs then Cancelled
      else Success)"

text \<open>One complete schedule: every job is started and completed, in the order of the file.\<close>

definition schedule :: "action list" where
  "schedule = concat (map (\<lambda>j. [Start j, Finish j]) all_jobs)"

subsection \<open>The mirror repositories\<close>

text \<open>
  A path is the list of its components. A tree lists the files of a work tree or of a
  commit with their contents; a directory exists where a file lies below it (git tracks
  no empty directory, and the name \<^verbatim>\<open>.git\<close> starts with a dot, which no \<^verbatim>\<open>*\<close> matches). A
  branch is the list of its commits, the tip first.
\<close>

type_synonym path = "string list"

type_synonym tree = "(path \<times> string) list"

record commit =
  message :: string
  files :: tree

datatype script_error = Clone_failed | Rm_failed | Cp_failed | Commit_failed

text \<open>The shell pattern \<^verbatim>\<open>*suffix\<close>: \<^verbatim>\<open>*\<close> matches any string, but no name that starts
  with a dot.\<close>

definition visible :: "string \<Rightarrow> bool" where
  "visible n \<longleftrightarrow> n \<noteq> [] \<and> hd n \<noteq> CHR ''.''"

definition glob_suffix :: "string \<Rightarrow> string \<Rightarrow> bool" where
  "glob_suffix suf n \<longleftrightarrow>
     visible n \<and> length suf \<le> length n \<and> drop (length n - length suf) n = suf"

text \<open>The names matched by \<^verbatim>\<open>*.js *.wasm *.html\<close>.\<close>

definition old_build :: "string \<Rightarrow> bool" where
  "old_build n \<longleftrightarrow> glob_suffix ''.js'' n \<or> glob_suffix ''.wasm'' n \<or> glob_suffix ''.html'' n"

definition top_file :: "path \<Rightarrow> bool" where
  "top_file p \<longleftrightarrow> length p = 1"

definition is_dir :: "tree \<Rightarrow> string \<Rightarrow> bool" where
  "is_dir t n \<longleftrightarrow> list_ex (\<lambda>(p, c). 2 \<le> length p \<and> hd p = n) t"

text \<open>
  \<^verbatim>\<open>Update web demo\<close>, lines 318 to 324, run as \<^verbatim>\<open>bash -e\<close> in the work tree \<open>t\<close> of
  the cloned mirror, with \<open>dist\<close> the directory \<^verbatim>\<open>web/packages/demo/dist\<close>.
  \<^verbatim>\<open>rm -f *.js *.wasm *.html\<close> removes the matching files of the top level; it fails on
  a matching name that starts with a dash, which it reads as options, and on a matching
  directory. \<^verbatim>\<open>cp -f dist/* .\<close> copies the visible files of the top level of
  \<open>dist\<close>; it fails when the pattern matches nothing, on a directory of \<open>dist\<close> (no
  \<^verbatim>\<open>-r\<close>), and on a file whose name is a directory of the work tree.
\<close>

definition update_web_demo :: "tree \<Rightarrow> tree \<Rightarrow> script_error + tree" where
  "update_web_demo dist t =
     (if list_ex (\<lambda>(p, c). p \<noteq> [] \<and> old_build (hd p) \<and> hd (hd p) = CHR ''-'') t
      then Inl Rm_failed
      else if list_ex (\<lambda>(p, c). 2 \<le> length p \<and> old_build (hd p)) t then Inl Rm_failed
      else
        let t1 = filter (\<lambda>(p, c). \<not> (top_file p \<and> old_build (hd p))) t;
            copied = filter (\<lambda>(p, c). top_file p \<and> visible (hd p)) dist
        in if list_all (\<lambda>(p, c). p = [] \<or> \<not> visible (hd p)) dist then Inl Cp_failed
           else if list_ex (\<lambda>(p, c). 2 \<le> length p \<and> visible (hd p)) dist then Inl Cp_failed
           else if list_ex (\<lambda>(p, c). is_dir t1 (hd p)) copied then Inl Cp_failed
           else Inr (copied @ filter (\<lambda>(p, c). map_of copied p = None) t1))"

text \<open>
  \<^verbatim>\<open>Update JS docs\<close>, lines 351 to 357: \<^verbatim>\<open>rm -rf master/\<close> removes the directory
  \<^verbatim>\<open>master\<close> with everything below it, and \<^verbatim>\<open>cp -r docs master\<close> copies the directory
  \<open>docs\<close> to \<^verbatim>\<open>master\<close>; the script fails when \<^verbatim>\<open>master\<close> is a regular file.
\<close>

definition update_js_docs :: "tree \<Rightarrow> tree \<Rightarrow> script_error + tree" where
  "update_js_docs docs t =
     (if map_of t [''master''] \<noteq> None then Inl Cp_failed
      else Inr (map (\<lambda>(p, c). (''master'' # p, c)) docs
                @ filter (\<lambda>(p, c). \<not> (p \<noteq> [] \<and> hd p = ''master'')) t))"

text \<open>
  \<^verbatim>\<open>git add -A\<close> and \<^verbatim>\<open>git commit --amend -m msg\<close>: the tip commit is replaced by a
  commit of the work tree with the new message, on the same parents. git refuses when
  the branch has no commit, and when the amended commit would have the tree of its
  parent (the empty tree when the tip is a root commit).
\<close>

definition commit_amend :: "string \<Rightarrow> tree \<Rightarrow> commit list \<Rightarrow> script_error + commit list" where
  "commit_amend msg t branch =
     (case branch of
        [] \<Rightarrow> Inl Commit_failed
      | c # rest \<Rightarrow>
          if set (case rest of [] \<Rightarrow> [] | parent # older \<Rightarrow> files parent) = set t
          then Inl Commit_failed
          else Inr (\<lparr>message = msg, files = t\<rparr> # rest))"

text \<open>
  One run of a mirror update: clone the branch (\<^verbatim>\<open>fetch-depth: 0\<close>, the work tree is
  that of the tip), change the work tree, amend, and push with \<^verbatim>\<open>force: true\<close>, after
  which the remote branch is the local one. \<open>date\<close> is the output \<^verbatim>\<open>date\<close> of
  \<^verbatim>\<open>create-nightly-release\<close>.
\<close>

definition mirror_update ::
    "(tree \<Rightarrow> script_error + tree) \<Rightarrow> string \<Rightarrow> commit list \<Rightarrow> script_error + commit list" where
  "mirror_update change date remote =
     (case remote of
        [] \<Rightarrow> Inl Clone_failed
      | c # rest \<Rightarrow>
          (case change (files c) of
             Inl err \<Rightarrow> Inl err
           | Inr t \<Rightarrow> commit_amend (''Nightly build '' @ date) t remote))"

definition mirror_web_demo :: "string \<Rightarrow> tree \<Rightarrow> commit list \<Rightarrow> script_error + commit list" where
  "mirror_web_demo date dist remote = mirror_update (update_web_demo dist) date remote"

definition mirror_js_docs :: "string \<Rightarrow> tree \<Rightarrow> commit list \<Rightarrow> script_error + commit list" where
  "mirror_js_docs date docs remote = mirror_update (update_js_docs docs) date remote"

text \<open>An example mirror and an example build output.\<close>

definition demo_branch :: "commit list" where
  "demo_branch =
     [\<lparr>message = ''Nightly build 2021_09_04'',
       files = [([''index.html''], ''old page''), ([''ruffle.js''], ''old script''),
                ([''stale.wasm''], ''old module''), ([''CNAME''], ''ruffle.rs''),
                ([''.nojekyll''], []), ([''.keep.js''], ''hidden''),
                ([''swfs'', ''logo.swf''], ''movie''), ([''swfs'', ''player.js''], ''nested script'')]\<rparr>,
      \<lparr>message = ''Initial commit'', files = [([''CNAME''], ''ruffle.rs'')]\<rparr>]"

definition demo_branch_1 :: "commit list" where
  "demo_branch_1 =
     [\<lparr>message = ''Nightly build 2021_09_05'',
       files = [([''index.html''], ''new page''), ([''ruffle.js''], ''new script''),
                ([''CNAME''], ''ruffle.rs''),
                ([''.nojekyll''], []), ([''.keep.js''], ''hidden''),
                ([''swfs'', ''logo.swf''], ''movie''), ([''swfs'', ''player.js''], ''nested script'')]\<rparr>,
      \<lparr>message = ''Initial commit'', files = [([''CNAME''], ''ruffle.rs'')]\<rparr>]"

definition demo_branch_2 :: "commit list" where
  "demo_branch_2 =
     [\<lparr>message = ''Nightly build 2021_09_06'',
       files = [([''index.html''], ''new page''), ([''ruffle.js''], ''new script''),
                ([''CNAME''], ''ruffle.rs''),
                ([''.nojekyll''], []), ([''.keep.js''], ''hidden''),
                ([''swfs'', ''logo.swf''], ''movie''), ([''swfs'', ''player.js''], ''nested script'')]\<rparr>,
      \<lparr>message = ''Initial commit'', files = [([''CNAME''], ''ruffle.rs'')]\<rparr>]"

definition docs_branch :: "commit list" where
  "docs_branch =
     [\<lparr>message = ''Nightly build 2021_09_04'',
       files = [([''master'', ''index.html''], ''old docs''), ([''README.md''], ''docs'')]\<rparr>]"

definition docs_dir :: tree where
  "docs_dir = [([''index.html''], ''new docs''), ([''classes'', ''player.html''], ''player'')]"

definition docs_branch_1 :: "commit list" where
  "docs_branch_1 =
     [\<lparr>message = ''Nightly build 2021_09_05'',
       files = [([''master'', ''index.html''], ''new docs''),
                ([''master'', ''classes'', ''player.html''], ''player''),
                ([''README.md''], ''docs'')]\<rparr>]"

definition docs_branch_2 :: "commit list" where
  "docs_branch_2 =
     [\<lparr>message = ''Nightly build 2021_09_06'',
       files = [([''master'', ''index.html''], ''new docs''),
                ([''master'', ''classes'', ''player.html''], ''player''),
                ([''README.md''], ''docs'')]\<rparr>]"

definition demo_dist :: tree where
  "demo_dist = [([''index.html''], ''new page''), ([''ruffle.js''], ''new script''),
                ([''CNAME''], ''ruffle.rs'')]"

subsection \<open>Invariants and example runs\<close>

text \<open>
  What every reachable state satisfies about the merger: it has left the queue only if
  every build job is done, it runs or ran only if every build job succeeded, a macOS
  build job that succeeded has uploaded its artifact, only a completed merger has steps
  in the trace, and \<^verbatim>\<open>Make universal binary\<close> ran only after both downloads succeeded.
\<close>

definition merger_inv :: "state \<Rightarrow> bool" where
  "merger_inv s \<longleftrightarrow>
     (status s Build_mac_universal_binary \<noteq> Pending \<longrightarrow> (\<forall>t. is_done (status s (Build t)))) \<and>
     (status s Build_mac_universal_binary \<in> {Running, Done Success, Done Failure}
        \<longrightarrow> (\<forall>t. status s (Build t) = Done Success)) \<and>
     (\<forall>t. status s (Build t) = Done Success \<longrightarrow> runner_os t = ''macOS''
        \<longrightarrow> build_name_str t \<in> set (artifacts s)) \<and>
     (\<forall>st b. (Build_mac_universal_binary, st, b) \<in> set (trace s)
        \<longrightarrow> status s Build_mac_universal_binary \<in> {Done Success, Done Failure}) \<and>
     ((\<exists>b. (Build_mac_universal_binary, Make_universal_binary, b) \<in> set (trace s))
        \<longrightarrow> (Build_mac_universal_binary, Download_aarch64_binary, True) \<in> set (trace s)
          \<and> (Build_mac_universal_binary, Download_x86_64_binary, True) \<in> set (trace s))"

text \<open>
  An example environment: a scheduled run whose steps all read the clock at
  2021-09-06 00:05:00 UTC and all succeed, four hours after the last commit.
\<close>

definition example_env :: env where
  "example_env =
     \<lparr>event_name = ''schedule'',
      recency = found ''2021-09-05T20:05:00Z'' 1630872300 ''RuffleBuild''
                  ''https://github.com/ruffle-rs/ruffle/commit/1'',
      clock = (\<lambda>j st. 1630886700),
      step_ok = (\<lambda>j st. True)\<rparr>"

text \<open>
  The states of a run whose gate stays closed: \<^verbatim>\<open>create-nightly-release\<close> is pending,
  running or done with conclusion \<open>c\<close>, every other job is pending or skipped, only the
  steps \<open>evs\<close> have been executed, the output \<^verbatim>\<open>activity_check\<close> is not \<^verbatim>\<open>true\<close>, and
  nothing has been published.
\<close>

definition blocked :: "conclusion \<Rightarrow> (job \<times> step \<times> bool) list \<Rightarrow> state \<Rightarrow> bool" where
  "blocked c evs s \<longleftrightarrow>
     status s Create_nightly_release \<in> {Pending, Running, Done c} \<and>
     (\<forall>j. j \<noteq> Create_nightly_release \<longrightarrow> status s j = Pending \<or> status s j = Done Skipped) \<and>
     set (trace s) \<subseteq> set evs \<and> activity_check_out s \<noteq> ''true'' \<and>
     releases s = [] \<and> artifacts s = [] \<and> assets s = [] \<and> mirror_pushes s = [] \<and>
     aur_submissions s = []"

text \<open>A lookup in which one of the commands of lines 25 to 30 exits non-zero.\<close>

definition lookup_failed :: "lookup \<Rightarrow> bool" where
  "lookup_failed l \<longleftrightarrow> fetch l \<noteq> 0 \<or> fst (committer_date l) \<noteq> 0 \<or> fst (timestamp l) \<noteq> 0
     \<or> fst (author l) \<noteq> 0 \<or> fst (url l) \<noteq> 0"

text \<open>The example run with the last commit two days before, with a lookup whose
  \<^verbatim>\<open>curl\<close> cannot resolve the host (exit status 6), and a manual run whose saved response
  is not JSON, as when the API answers with a rate-limit message (\<^verbatim>\<open>jq\<close> exits with 2).\<close>

definition stale_env :: env where
  "stale_env = example_env\<lparr>recency := found ''2021-09-04T00:05:00Z'' 1630713900 ''RuffleBuild''
                 ''https://github.com/ruffle-rs/ruffle/commit/1''\<rparr>"

definition unreachable_env :: env where
  "unreachable_env = example_env\<lparr>recency := (recency example_env)\<lparr>fetch := 6\<rparr>\<rparr>"

definition rate_limited_env :: env where
  "rate_limited_env = example_env\<lparr>event_name := ''workflow_dispatch'',
     recency := (recency example_env)\<lparr>committer_date := (2, [])\<rparr>\<rparr>"

text \<open>A manual run whose last upstream change is thirty days old.\<close>

definition manual_stale_env :: env where
  "manual_stale_env = example_env\<lparr>event_name := ''workflow_dispatch'',
     recency := found ''2021-08-07T00:05:00Z'' 1628294700 ''RuffleBuild''
                  ''https://github.com/ruffle-rs/ruffle/commit/1''\<rparr>"








text \<open>The release and the AUR submission of a run.\<close>

definition dated_items :: "state \<Rightarrow> (string \<times> string) list \<times> (string \<times> string) list" where
  "dated_items s = (releases s, aur_submissions s)"

text \<open>
  What every reachable state satisfies about the dated strings a run has published: each
  of them is built from the output of the time step of its own job.
\<close>

definition published_inv :: "env \<Rightarrow> state \<Rightarrow> bool" where
  "published_inv e s \<longleftrightarrow>
     set (releases s) \<subseteq> {(tag_name e, release_name e)} \<and>
     set (aur_submissions s) \<subseteq> {(pkgbuild_version e, aur_commit_message e)} \<and>
     set (mirror_pushes s) \<subseteq> {(''ruffle-rs/demo'', mirror_commit_message e),
                               (''ruffle-rs/js-docs'', mirror_commit_message e)} \<and>
     list_all (\<lambda>x. take (length (package_prefix e)) x = package_prefix e) (assets s)"

text \<open>
  A manual run started shortly before midnight: the steps of every job but
  \<^verbatim>\<open>publish-aur-package\<close> read the clock at 2021-09-05 23:55:00 UTC, those of
  \<^verbatim>\<open>publish-aur-package\<close>, which runs after the builds, at 2021-09-06 00:25:00 UTC.
\<close>

definition midnight_env :: env where
  "midnight_env = example_env\<lparr>event_name := ''workflow_dispatch'',
     clock := (\<lambda>j st. if j = Publish_aur_package then 1630887900 else 1630886100)\<rparr>"



text \<open>A manual run whose \<^verbatim>\<open>curl\<close> cannot resolve the host.\<close>

definition manual_unreachable_env :: env where
  "manual_unreachable_env = unreachable_env\<lparr>event_name := ''workflow_dispatch''\<rparr>"

section \<open>Properties\<close>

subsection \<open>The string comparison agrees with the numeric one\<close>

lemma str_lt_Nil_right: "str_lt xs [] = False"
  by (cases xs) simp_all

lemma digit_char_code: "d < 10 \<Longrightarrow> (of_char (digit_char d) :: nat) = 48 + d"
proof -
  assume "d < 10"
  then have "d = 0 \<or> d = 1 \<or> d = 2 \<or> d = 3 \<or> d = 4 \<or> d = 5 \<or> d = 6
    \<or> d = 7 \<or> d = 8 \<or> d = 9"
    by arith
  then show ?thesis
    by (elim disjE) (simp_all add: digit_char_def)
qed

lemma show_nat_head:
  "1 \<le> n \<Longrightarrow> \<exists>c cs. show_nat n = c # cs \<and> (49::nat) \<le> of_char c"
proof (induction n rule: show_nat.induct)
  case (1 n)
  show ?case
  proof (cases "n < 10")
    case True
    with "1.prems" have "(49::nat) \<le> of_char (digit_char n)"
      by (simp add: digit_char_code)
    with True show ?thesis by simp
  next
    case False
    then have "1 \<le> n div 10" by simp
    with "1.IH" False obtain c cs where "show_nat (n div 10) = c # cs" "(49::nat) \<le> of_char c"
      by blast
    with False show ?thesis by simp
  qed
qed

lemma str_lt_days: "str_lt (show_int d) ''1'' \<longleftrightarrow> d < 1"
proof -
  consider "d < 0" | "d = 0" | "1 \<le> d" by linarith
  then show ?thesis
  proof cases
    case 1
    then show ?thesis by (simp add: show_int_def)
  next
    case 2
    then show ?thesis by (simp add: show_int_def digit_char_def)
  next
    case 3
    then have "1 \<le> nat d" by simp
    then obtain c cs where s: "show_nat (nat d) = c # cs" and c: "(49::nat) \<le> of_char c"
      using show_nat_head by blast
    have "\<not> str_lt (c # cs) ''1''"
      using c by (simp add: str_lt_Nil_right)
    with 3 s show ?thesis by (simp add: show_int_def)
  qed
qed

lemma bash_div_days: "bash_div a 86400 < 1 \<longleftrightarrow> a div 86400 < 1"
proof (cases "0 \<le> a")
  case True
  then show ?thesis by (simp add: bash_div_def sgn_if)
next
  case False
  then have "a div 86400 < 0" by simp
  moreover have "bash_div a 86400 \<le> 0"
    using False by (simp add: bash_div_def sgn_if)
  ultimately show ?thesis by simp
qed

subsection \<open>The Activity Gate\<close>

lemma activity_check_found_status:
  "exit_status (activity_check ev (found d ts a u) now) = 0"
  by (simp add: activity_check_def found_def Let_def split: prod.splits)

lemma activity_check_found_env:
  "github_env (activity_check ev (found d ts a u) now) =
     (if manual ev \<or> (now - ts) div 86400 < 1 then [(''GHA_REPO_ALIVE'', ''true'')] else [])"
proof -
  have "str_lt (show_int (bash_div (now - ts) 86400)) ''1'' \<longleftrightarrow> (now - ts) div 86400 < 1"
    by (simp only: str_lt_days bash_div_days)
  then show ?thesis
    by (simp add: activity_check_def found_def manual_def Let_def)
qed

declare show_nat.simps [simp del]

subsection \<open>Frame lemmas for the steps of a job\<close>

lemma step_effect_status: "status (step_effect e j st s) = status s"
  by (simp add: step_effect_def split: job.splits)

lemma step_effect_trace: "trace (step_effect e j st s) = trace s"
  by (simp add: step_effect_def split: job.splits)

lemma step_effect_out: "activity_check_out (step_effect e j st s) = activity_check_out s"
  by (simp add: step_effect_def split: job.splits)

lemma step_effect_artifacts:
  "x \<in> set (artifacts s) \<Longrightarrow> x \<in> set (artifacts (step_effect e j st s))"
  by (auto simp add: step_effect_def split: job.splits)

lemma run_steps_status: "status (snd (snd (run_steps e j xs ok g s))) = status s"
  by (induction e j xs ok g s rule: run_steps.induct) (simp_all add: step_effect_status)

lemma run_steps_out:
  "activity_check_out (snd (snd (run_steps e j xs ok g s))) = activity_check_out s"
  by (induction e j xs ok g s rule: run_steps.induct) (simp_all add: step_effect_out)

lemma run_steps_artifacts:
  "x \<in> set (artifacts s) \<Longrightarrow> x \<in> set (artifacts (snd (snd (run_steps e j xs ok g s))))"
  by (induction e j xs ok g s rule: run_steps.induct) (auto simp add: step_effect_artifacts)

lemma run_steps_trace:
  "(k, st, b) \<in> set (trace (snd (snd (run_steps e j xs ok g s)))) \<Longrightarrow> k \<noteq> j
    \<Longrightarrow> (k, st, b) \<in> set (trace s)"
  by (induction e j xs ok g s rule: run_steps.induct)
     (auto simp add: step_effect_trace split: if_splits)

lemma run_steps_trace_mono:
  "x \<in> set (trace s) \<Longrightarrow> x \<in> set (trace (snd (snd (run_steps e j xs ok g s))))"
  by (induction e j xs ok g s rule: run_steps.induct) (auto simp add: step_effect_trace)


subsection \<open>Starting and completing a job\<close>

lemma start_cases:
  "start j s = s \<or>
   (status s j = Pending \<and> list_all (\<lambda>n. is_done (status s n)) (needs j) \<and>
    ((list_all (\<lambda>n. status s n = Done Success) (needs j) \<and> job_if j s \<and>
      start j s = s\<lparr>status := (status s)(j := Running)\<rparr>) \<or>
     (\<not> (list_all (\<lambda>n. status s n = Done Success) (needs j) \<and> job_if j s) \<and>
      start j s = s\<lparr>status := (status s)(j := Done Skipped)\<rparr>)))"
  by (simp add: start_def cancelled_by_fail_fast_def fail_fast_def split: job.splits)

lemma finish_cases:
  "finish e j s = s \<or>
   (status s j = Running \<and>
    (\<exists>ok g s'. run_steps e j (job_steps j) True [] s = (ok, g, s') \<and>
       finish e j s =
         s'\<lparr>status := (status s)(j := Done (if ok then Success else Failure)),
            activity_check_out :=
              (if j = Create_nightly_release then env_lookup g ''GHA_REPO_ALIVE''
               else activity_check_out s)\<rparr>))"
proof (cases "status s j = Running")
  case False
  then show ?thesis by (simp add: finish_def)
next
  case True
  obtain ok g s' where r: "run_steps e j (job_steps j) True [] s = (ok, g, s')"
    by (cases "run_steps e j (job_steps j) True [] s") auto
  have "status s' = status s" "activity_check_out s' = activity_check_out s"
    using run_steps_status [of e j "job_steps j" True "[]" s]
      run_steps_out [of e j "job_steps j" True "[]" s] r by simp_all
  with True r show ?thesis
    by (simp add: finish_def cancelled_by_fail_fast_def fail_fast_def split: job.splits)
qed

lemma list_all_builds:
  "list_all P (map Build matrix_include) \<longleftrightarrow> (\<forall>t. P (Build t))"
proof -
  have "t \<in> set matrix_include" for t
    by (cases t) (simp_all add: matrix_include_def)
  then show ?thesis
    by (auto simp add: list_all_iff)
qed

lemma build_uploads_artifact:
  assumes "run_steps e (Build t) (job_steps (Build t)) True [] s = (True, g, s')"
    and "runner_os t = ''macOS''"
  shows "build_name_str t \<in> set (artifacts s')"
  using assms
  by (cases t)
     (auto simp add: runner_os_def always_def step_effect_def step_env_def step_succeeds_def
        split: if_splits)

lemma merger_steps:
  assumes "run_steps e Build_mac_universal_binary (job_steps Build_mac_universal_binary) True [] s
      = (ok, g, s')"
    and "(Build_mac_universal_binary, Make_universal_binary, b) \<in> set (trace s')"
    and "\<forall>st b. (Build_mac_universal_binary, st, b) \<notin> set (trace s)"
  shows "(Build_mac_universal_binary, Download_aarch64_binary, True) \<in> set (trace s')
    \<and> (Build_mac_universal_binary, Download_x86_64_binary, True) \<in> set (trace s')
    \<and> ''macos-aarch64'' \<in> set (artifacts s) \<and> ''macos-x86_64'' \<in> set (artifacts s)"
  using assms
  by (simp add: always_def step_effect_def step_env_def step_succeeds_def split: if_splits)
     auto


subsection \<open>The merger's barrier\<close>

lemma merger_inv_init: "merger_inv init"
  by (simp add: merger_inv_def init_def)

lemma merger_inv_start:
  assumes "merger_inv s"
  shows "merger_inv (start j s)"
proof -
  consider "start j s = s"
    | c where "status s j = Pending" "list_all (\<lambda>n. is_done (status s n)) (needs j)"
        "start j s = s\<lparr>status := (status s)(j := c)\<rparr>"
        "c = Running \<and> list_all (\<lambda>n. status s n = Done Success) (needs j) \<or> c = Done Skipped"
    using start_cases [of j s] by blast
  then show ?thesis
  proof cases
    case 1
    with assms show ?thesis by simp
  next
    case 2
    show ?thesis
    proof (cases j)
      case Build_mac_universal_binary
      with 2 assms show ?thesis
        by (auto simp add: merger_inv_def list_all_builds)
    next
      case (Build t)
      with 2(1) have "\<not> is_done (status s (Build t))"
        by (simp add: is_done_def)
      with assms have "status s Build_mac_universal_binary = Pending"
        unfolding merger_inv_def by blast
      with 2 Build assms show ?thesis
        by (auto simp add: merger_inv_def)
    next
      case Create_nightly_release
      with 2 assms show ?thesis by (auto simp add: merger_inv_def)
    next
      case Build_web
      with 2 assms show ?thesis by (auto simp add: merger_inv_def)
    next
      case Publish_aur_package
      with 2 assms show ?thesis by (auto simp add: merger_inv_def)
    qed
  qed
qed

lemma merger_inv_finish:
  assumes "merger_inv s"
  shows "merger_inv (finish e j s)"
proof -
  consider "finish e j s = s"
    | ok g s' c where "status s j = Running"
        "run_steps e j (job_steps j) True [] s = (ok, g, s')"
        "finish e j s = s'\<lparr>status := (status s)(j := Done (if ok then Success else Failure)),
            activity_check_out := c\<rparr>"
    using finish_cases [of e j s] by blast
  then show ?thesis
  proof cases
    case 1
    with assms show ?thesis by simp
  next
    case 2
    have art: "x \<in> set (artifacts s) \<Longrightarrow> x \<in> set (artifacts s')" for x
      using run_steps_artifacts [of x s e j "job_steps j" True "[]"] 2(2) by simp
    have tr: "k \<noteq> j \<Longrightarrow> (k, st, b) \<in> set (trace s') \<longleftrightarrow> (k, st, b) \<in> set (trace s)" for k st b
      using run_steps_trace [of k st b e j "job_steps j" True "[]" s]
        run_steps_trace_mono [of "(k, st, b)" s e j "job_steps j" True "[]"] 2(2) by auto
    show ?thesis
    proof (cases j)
      case Build_mac_universal_binary
      with 2(1) assms have none: "\<forall>st b. (Build_mac_universal_binary, st, b) \<notin> set (trace s)"
        by (auto simp add: merger_inv_def)
      have "(Build_mac_universal_binary, Make_universal_binary, b) \<in> set (trace s')
        \<Longrightarrow> (Build_mac_universal_binary, Download_aarch64_binary, True) \<in> set (trace s')
          \<and> (Build_mac_universal_binary, Download_x86_64_binary, True) \<in> set (trace s')" for b
        using merger_steps [OF _ _ none] 2(2) Build_mac_universal_binary by blast
      with 2 Build_mac_universal_binary assms art show ?thesis
        by (auto simp add: merger_inv_def)
    next
      case (Build t)
      with 2(1) have "\<not> is_done (status s (Build t))"
        by (simp add: is_done_def)
      with assms have p: "status s Build_mac_universal_binary = Pending"
        unfolding merger_inv_def by blast
      have up: "ok \<Longrightarrow> runner_os t = ''macOS'' \<Longrightarrow> build_name_str t \<in> set (artifacts s')"
        using build_uploads_artifact [of e t s g s'] 2(2) Build by simp
      from 2 Build assms art tr [of Build_mac_universal_binary] p up show ?thesis
        by (auto simp add: merger_inv_def)
    next
      case Create_nightly_release
      with 2 assms art tr [of Build_mac_universal_binary] show ?thesis
        by (auto simp add: merger_inv_def)
    next
      case Build_web
      with 2 assms art tr [of Build_mac_universal_binary] show ?thesis
        by (auto simp add: merger_inv_def)
    next
      case Publish_aur_package
      with 2 assms art tr [of Build_mac_universal_binary] show ?thesis
        by (auto simp add: merger_inv_def)
    qed
  qed
qed

lemma exec_invariant:
  assumes "P s" and "\<And>s a. P s \<Longrightarrow> P (do_action e s a)"
  shows "P (exec e s acts)"
  using assms(1)
proof (induction acts arbitrary: s)
  case Nil
  then show ?case by simp
next
  case (Cons a acts)
  then show ?case by (simp add: assms(2))
qed

lemma merger_inv_exec: "merger_inv (exec e init acts)"
proof (rule exec_invariant)
  show "merger_inv init" by (rule merger_inv_init)
next
  fix s a
  assume "merger_inv s"
  then show "merger_inv (do_action e s a)"
    by (cases a) (simp_all add: merger_inv_start merger_inv_finish)
qed


lemmas run_defs = init_def start_def finish_def is_done_def cancelled_by_fail_fast_def
  fail_fast_def step_succeeds_def step_effect_def step_env_def always_def env_lookup_def
  runner_os_def schedule_def all_jobs_def matrix_include_def manual_def
  activity_check_found_status activity_check_found_env

text \<open>
  C3. In every state a run can reach, under every schedule and every outcome of the
  external steps: the merger has left the queue only if every job of the build matrix is
  done; it runs only if each of them succeeded; and if its step
  \<^verbatim>\<open>Make universal binary\<close> was executed, then every build job succeeded, both download
  steps succeeded before it, and both raw binaries \<^verbatim>\<open>macos-x86_64\<close> and \<^verbatim>\<open>macos-aarch64\<close>
  are among the run's artifacts.
\<close>

theorem merger_barrier:
  "(status (exec e init acts) Build_mac_universal_binary \<noteq> Pending \<longrightarrow>
      list_all (\<lambda>t. is_done (status (exec e init acts) (Build t))) matrix_include) \<and>
   (status (exec e init acts) Build_mac_universal_binary = Running \<longrightarrow>
      list_all (\<lambda>t. status (exec e init acts) (Build t) = Done Success) matrix_include) \<and>
   ((Build_mac_universal_binary, Make_universal_binary, b) \<in> set (trace (exec e init acts)) \<longrightarrow>
      list_all (\<lambda>t. status (exec e init acts) (Build t) = Done Success) matrix_include \<and>
      (Build_mac_universal_binary, Download_aarch64_binary, True) \<in> set (trace (exec e init acts)) \<and>
      (Build_mac_universal_binary, Download_x86_64_binary, True) \<in> set (trace (exec e init acts)) \<and>
      ''macos-x86_64'' \<in> set (artifacts (exec e init acts)) \<and>
      ''macos-aarch64'' \<in> set (artifacts (exec e init acts)))"
proof -
  define s where "s = exec e init acts"
  have inv: "merger_inv s"
    unfolding s_def by (rule merger_inv_exec)
  have a: "status s Build_mac_universal_binary \<noteq> Pending \<Longrightarrow> is_done (status s (Build t))" for t
    using inv unfolding merger_inv_def by blast
  have b: "status s Build_mac_universal_binary \<in> {Running, Done Success, Done Failure}
      \<Longrightarrow> status s (Build t) = Done Success" for t
    using inv unfolding merger_inv_def by blast
  have c: "status s (Build t) = Done Success \<Longrightarrow> runner_os t = ''macOS''
      \<Longrightarrow> build_name_str t \<in> set (artifacts s)" for t
    using inv unfolding merger_inv_def by blast
  have d: "(Build_mac_universal_binary, Make_universal_binary, b) \<in> set (trace s)
      \<Longrightarrow> status s Build_mac_universal_binary \<in> {Done Success, Done Failure}"
    using inv unfolding merger_inv_def by blast
  have dl: "(Build_mac_universal_binary, Make_universal_binary, b) \<in> set (trace s)
      \<Longrightarrow> (Build_mac_universal_binary, Download_aarch64_binary, True) \<in> set (trace s)
        \<and> (Build_mac_universal_binary, Download_x86_64_binary, True) \<in> set (trace s)"
    using inv unfolding merger_inv_def by blast
  have m: "(Build_mac_universal_binary, Make_universal_binary, b) \<in> set (trace s)
      \<Longrightarrow> status s (Build t) = Done Success" for t
    using b d by blast
  have x: "(Build_mac_universal_binary, Make_universal_binary, b) \<in> set (trace s)
      \<Longrightarrow> ''macos-x86_64'' \<in> set (artifacts s)"
    using c [of Macos_x86_64] m [of Macos_x86_64] by (simp add: runner_os_def)
  have y: "(Build_mac_universal_binary, Make_universal_binary, b) \<in> set (trace s)
      \<Longrightarrow> ''macos-aarch64'' \<in> set (artifacts s)"
    using c [of Macos_aarch64] m [of Macos_aarch64] by (simp add: runner_os_def)
  have "(status s Build_mac_universal_binary \<noteq> Pending \<longrightarrow>
      list_all (\<lambda>t. is_done (status s (Build t))) matrix_include)"
    using a by (simp add: list_all_iff)
  moreover have "(status s Build_mac_universal_binary = Running \<longrightarrow>
      list_all (\<lambda>t. status s (Build t) = Done Success) matrix_include)"
    using b by (simp add: list_all_iff)
  moreover have "((Build_mac_universal_binary, Make_universal_binary, b) \<in> set (trace s) \<longrightarrow>
      list_all (\<lambda>t. status s (Build t) = Done Success) matrix_include \<and>
      (Build_mac_universal_binary, Download_aarch64_binary, True) \<in> set (trace s) \<and>
      (Build_mac_universal_binary, Download_x86_64_binary, True) \<in> set (trace s) \<and>
      ''macos-x86_64'' \<in> set (artifacts s) \<and> ''macos-aarch64'' \<in> set (artifacts s))"
    using m dl x y by (simp add: list_all_iff)
  ultimately show ?thesis
    unfolding s_def by blast
qed

theorem merger_barrier_witness:
  "(Build_mac_universal_binary, Make_universal_binary, True)
     \<in> set (trace (exec example_env init schedule)) \<and>
   list_all (\<lambda>t. status (exec example_env init schedule) (Build t) = Done Success) matrix_include \<and>
   ''macos-x86_64'' \<in> set (artifacts (exec example_env init schedule)) \<and>
   ''macos-aarch64'' \<in> set (artifacts (exec example_env init schedule))"
proof -
  have "(Build_mac_universal_binary, Make_universal_binary, True)
     \<in> set (trace (exec example_env init schedule))"
    by (simp add: example_env_def run_defs)
  with merger_barrier [of example_env schedule True] show ?thesis
    by blast
qed

subsection \<open>Runs whose gate stays closed\<close>

lemma blocked_init: "blocked c evs init"
  by (simp add: blocked_def init_def)

lemma blocked_start:
  assumes "blocked c evs s"
  shows "blocked c evs (start j s)"
proof -
  consider "start j s = s"
    | "status s j = Pending" "list_all (\<lambda>n. is_done (status s n)) (needs j)"
        "list_all (\<lambda>n. status s n = Done Success) (needs j)" "job_if j s"
        "start j s = s\<lparr>status := (status s)(j := Running)\<rparr>"
    | "status s j = Pending" "start j s = s\<lparr>status := (status s)(j := Done Skipped)\<rparr>"
        "\<not> (list_all (\<lambda>n. status s n = Done Success) (needs j) \<and> job_if j s)"
    using start_cases [of j s] by blast
  then show ?thesis
  proof cases
    case 1
    with assms show ?thesis by simp
  next
    case 2
    have "status s (Build Linux_x86_64) = Pending \<or> status s (Build Linux_x86_64) = Done Skipped"
      using assms unfolding blocked_def by blast
    then have sk: "status s (Build Linux_x86_64) \<noteq> Done Success"
      by auto
    show ?thesis
    proof (cases j)
      case Create_nightly_release
      with 2 assms show ?thesis by (auto simp add: blocked_def)
    next
      case (Build t)
      with 2(4) assms show ?thesis by (simp add: blocked_def)
    next
      case Build_web
      with 2(4) assms show ?thesis by (simp add: blocked_def)
    next
      case Build_mac_universal_binary
      with 2(3) sk show ?thesis by (simp add: list_all_builds)
    next
      case Publish_aur_package
      with 2(3) sk show ?thesis by (simp add: list_all_builds)
    qed
  next
    case 3
    with assms show ?thesis
      by (cases "j = Create_nightly_release") (auto simp add: blocked_def)
  qed
qed

lemma blocked_finish:
  assumes "blocked c evs s"
    and run: "\<And>s. run_steps e Create_nightly_release (job_steps Create_nightly_release) True [] s
        = (c = Success, g, s\<lparr>trace := trace s @ evs\<rparr>)"
    and "c = Success \<or> c = Failure"
    and g: "env_lookup g ''GHA_REPO_ALIVE'' \<noteq> ''true''"
  shows "blocked c evs (finish e j s)"
proof (cases "status s j = Running")
  case False
  with assms(1) show ?thesis by (simp add: finish_def)
next
  case True
  with assms(1) have j: "j = Create_nightly_release"
    by (auto simp add: blocked_def)
  show ?thesis
    using assms(1,3) g True j run [of s]
    by (auto simp add: blocked_def finish_def cancelled_by_fail_fast_def)
qed

lemma blocked_exec:
  assumes "\<And>s. run_steps e Create_nightly_release (job_steps Create_nightly_release) True [] s
        = (c = Success, g, s\<lparr>trace := trace s @ evs\<rparr>)"
    and "c = Success \<or> c = Failure"
    and "env_lookup g ''GHA_REPO_ALIVE'' \<noteq> ''true''"
  shows "blocked c evs (exec e init acts)"
proof (rule exec_invariant)
  show "blocked c evs init" by (rule blocked_init)
next
  fix s a
  assume "blocked c evs s"
  then show "blocked c evs (do_action e s a)"
    using assms by (cases a) (simp_all add: blocked_start blocked_finish)
qed

lemma blocked_final:
  assumes "blocked c evs s" and "finished s" and "c = Success \<or> c = Failure"
  shows "run_conclusion s = c"
proof -
  have c: "status s Create_nightly_release = Done c"
    using assms(1,2) by (auto simp add: blocked_def finished_def all_jobs_def is_done_def)
  have o: "j \<noteq> Create_nightly_release \<Longrightarrow> status s j \<noteq> Done Failure \<and> status s j \<noteq> Done Cancelled" for j
    using assms(1) unfolding blocked_def by auto
  show ?thesis
    using c o assms(3)
    by (auto simp add: run_conclusion_def all_jobs_def matrix_include_def)
qed

lemma blocked_schedule:
  assumes run: "\<And>s. run_steps e Create_nightly_release (job_steps Create_nightly_release) True [] s
        = (c = Success, g, s\<lparr>trace := trace s @ evs\<rparr>)"
    and g: "env_lookup g ''GHA_REPO_ALIVE'' \<noteq> ''true''"
  shows "finished (exec e init schedule)"
  using g
  by (simp add: schedule_def all_jobs_def matrix_include_def finished_def init_def start_def
      finish_def is_done_def cancelled_by_fail_fast_def fail_fast_def run
      del: job_steps.simps)

lemma activity_check_failed:
  assumes "lookup_failed l"
  shows "exit_status (activity_check ev l now) \<noteq> 0 \<and> stdout (activity_check ev l now) = []
    \<and> github_env (activity_check ev l now) = []"
  using assms by (auto simp add: activity_check_def lookup_failed_def aborted_def Let_def)

lemma create_steps_failed:
  assumes "lookup_failed (recency e)"
  shows "run_steps e Create_nightly_release (job_steps Create_nightly_release) True [] s
    = (Failure = Success, [], s\<lparr>trace := trace s @ [(Create_nightly_release, Activity_check, False)]\<rparr>)"
  using activity_check_failed [OF assms, of "event_name e" "clock e Create_nightly_release Activity_check"]
  by (simp add: step_succeeds_def step_env_def always_def env_lookup_def)

lemma create_steps_stale:
  assumes "\<not> manual (event_name e)" and "recency e = found d ts a u"
    and "1 \<le> (clock e Create_nightly_release Activity_check - ts) div 86400"
    and "step_ok e Create_nightly_release Get_current_time_with_dashes"
    and "step_ok e Create_nightly_release Get_current_time_with_underscores"
  shows "run_steps e Create_nightly_release (job_steps Create_nightly_release) True [] s
    = (Success = Success, [],
       s\<lparr>trace := trace s @ [(Create_nightly_release, Activity_check, True),
          (Create_nightly_release, Get_current_time_with_dashes, True),
          (Create_nightly_release, Get_current_time_with_underscores, True)]\<rparr>)"
  using assms
  by (simp add: step_succeeds_def step_env_def step_effect_def always_def env_lookup_def
      activity_check_found_status activity_check_found_env)

text \<open>
  C2. On a scheduled trigger whose last upstream change is at least one day old (the
  lookup and the two time steps succeeding), under every schedule: the only steps ever
  executed are the Activity check and the two time steps of \<^verbatim>\<open>create-nightly-release\<close>;
  \<^verbatim>\<open>Create release\<close> and every step of the build jobs, the merger, \<^verbatim>\<open>build-web\<close> and
  \<^verbatim>\<open>publish-aur-package\<close> are not executed, those jobs are skipped, no release, artifact,
  asset, mirror push or AUR submission is made; a finished run concludes with success,
  and the run does finish.
\<close>

theorem stale_scheduled_run_is_skipped:
  assumes "\<not> manual (event_name e)" and "recency e = found d ts a u"
    and "1 \<le> (clock e Create_nightly_release Activity_check - ts) div 86400"
    and "step_ok e Create_nightly_release Get_current_time_with_dashes"
    and "step_ok e Create_nightly_release Get_current_time_with_underscores"
  shows "set (trace (exec e init acts)) \<subseteq>
      {(Create_nightly_release, Activity_check, True),
       (Create_nightly_release, Get_current_time_with_dashes, True),
       (Create_nightly_release, Get_current_time_with_underscores, True)} \<and>
    releases (exec e init acts) = [] \<and> artifacts (exec e init acts) = [] \<and>
    assets (exec e init acts) = [] \<and> mirror_pushes (exec e init acts) = [] \<and>
    aur_submissions (exec e init acts) = [] \<and>
    (\<forall>j. j \<noteq> Create_nightly_release \<longrightarrow>
       status (exec e init acts) j = Pending \<or> status (exec e init acts) j = Done Skipped) \<and>
    (finished (exec e init acts) \<longrightarrow> run_conclusion (exec e init acts) = Success) \<and>
    finished (exec e init schedule)"
proof -
  note run = create_steps_stale [OF assms]
  have g: "env_lookup [] ''GHA_REPO_ALIVE'' \<noteq> ''true''"
    by (simp add: env_lookup_def)
  have b: "blocked Success [(Create_nightly_release, Activity_check, True),
          (Create_nightly_release, Get_current_time_with_dashes, True),
          (Create_nightly_release, Get_current_time_with_underscores, True)] (exec e init acts)"
    by (rule blocked_exec [OF run _ g]) simp
  have f: "finished (exec e init schedule)"
    by (rule blocked_schedule [OF run g])
  have c: "finished (exec e init acts) \<longrightarrow> run_conclusion (exec e init acts) = Success"
    using blocked_final [OF b] by simp
  show ?thesis
    using b c f unfolding blocked_def by auto
qed

theorem stale_scheduled_run_is_skipped_witness:
  "set (trace (exec stale_env init schedule)) \<subseteq>
      {(Create_nightly_release, Activity_check, True),
       (Create_nightly_release, Get_current_time_with_dashes, True),
       (Create_nightly_release, Get_current_time_with_underscores, True)} \<and>
   assets (exec stale_env init schedule) = [] \<and>
   mirror_pushes (exec stale_env init schedule) = [] \<and>
   aur_submissions (exec stale_env init schedule) = [] \<and>
   finished (exec stale_env init schedule) \<and>
   run_conclusion (exec stale_env init schedule) = Success"
proof -
  have 1: "\<not> manual (event_name stale_env)"
    by (simp add: stale_env_def example_env_def manual_def)
  have 2: "recency stale_env = found ''2021-09-04T00:05:00Z'' 1630713900 ''RuffleBuild''
                 ''https://github.com/ruffle-rs/ruffle/commit/1''"
    by (simp add: stale_env_def)
  have 3: "1 \<le> (clock stale_env Create_nightly_release Activity_check - 1630713900) div 86400"
    by (simp add: stale_env_def example_env_def)
  have 4: "step_ok stale_env Create_nightly_release Get_current_time_with_dashes"
    by (simp add: stale_env_def example_env_def)
  have 5: "step_ok stale_env Create_nightly_release Get_current_time_with_underscores"
    by (simp add: stale_env_def example_env_def)
  from stale_scheduled_run_is_skipped [OF 1 2 3 4 5, of schedule] show ?thesis
    by blast
qed




subsection \<open>Runs that differ in the trigger and the lookup only\<close>

lemma step_effect_clock:
  assumes "clock e' = clock e"
  shows "step_effect e' j st s = step_effect e j st s"
  using assms
  by (cases j) (simp_all add: step_effect_def tag_name_def release_name_def package_prefix_def
      date_output_def mirror_commit_message_def pkgbuild_version_def aur_commit_message_def)

lemma run_steps_same:
  assumes "clock e' = clock e" and "step_ok e' = step_ok e"
    and "Activity_check \<in> fst ` set xs \<Longrightarrow>
      exit_status (activity_check (event_name e') (recency e') (clock e j Activity_check))
        = exit_status (activity_check (event_name e) (recency e) (clock e j Activity_check)) \<and>
      github_env (activity_check (event_name e') (recency e') (clock e j Activity_check))
        = github_env (activity_check (event_name e) (recency e) (clock e j Activity_check))"
  shows "run_steps e' j xs ok g s = run_steps e j xs ok g s"
  using assms(3)
proof (induction xs arbitrary: ok g s)
  case Nil
  then show ?case by simp
next
  case (Cons x xs)
  obtain st cond where x: "x = (st, cond)" by (cases x)
  have ih: "run_steps e' j xs ok' g' s' = run_steps e j xs ok' g' s'" for ok' g' s'
    using Cons by simp
  have su: "step_succeeds e' s j st = step_succeeds e s j st"
    using Cons.prems x assms(1,2) by (simp add: step_succeeds_def)
  have en: "step_env e' j st = step_env e j st"
    using Cons.prems x assms(1,2) by (simp add: step_env_def)
  show ?case
    using x ih su en step_effect_clock [OF assms(1)] by simp
qed

lemma finish_same:
  assumes "clock e' = clock e" and "step_ok e' = step_ok e"
    and "exit_status (activity_check (event_name e') (recency e')
            (clock e Create_nightly_release Activity_check))
        = exit_status (activity_check (event_name e) (recency e)
            (clock e Create_nightly_release Activity_check))"
    and "github_env (activity_check (event_name e') (recency e')
            (clock e Create_nightly_release Activity_check))
        = github_env (activity_check (event_name e) (recency e)
            (clock e Create_nightly_release Activity_check))"
  shows "finish e' j s = finish e j s"
proof -
  have "Activity_check \<in> fst ` set (job_steps j) \<Longrightarrow> j = Create_nightly_release"
    by (cases j) auto
  then have "run_steps e' j (job_steps j) True [] s = run_steps e j (job_steps j) True [] s"
    using assms by (intro run_steps_same) auto
  then show ?thesis
    by (simp add: finish_def)
qed

lemma exec_same:
  assumes "\<And>j s. finish e' j s = finish e j s"
  shows "exec e' s acts = exec e s acts"
proof (induction acts arbitrary: s)
  case Nil
  then show ?case by simp
next
  case (Cons a acts)
  have "do_action e' s a = do_action e s a"
    using assms by (cases a) simp_all
  with Cons show ?case by simp
qed

lemma blocked_skipped:
  assumes "blocked c evs s" and "j \<noteq> Create_nightly_release" and "is_done (status s j)"
  shows "status s j = Done Skipped"
proof -
  have "status s j = Pending \<or> status s j = Done Skipped"
    using assms(1,2) unfolding blocked_def by blast
  with assms(3) show ?thesis
    by (auto simp add: is_done_def)
qed

text \<open>
  C7, as amended. For a manually triggered run whose lookup commands succeed, however old
  the last upstream change: the Activity check writes \<^verbatim>\<open>GHA_REPO_ALIVE=true\<close>, and under
  every schedule the run reaches exactly the state (job statuses, executed steps,
  everything published) that a scheduled run reaches when the last change is of that very
  moment, all else equal.
\<close>

theorem manual_run_is_not_gated:
  assumes "manual (event_name e)" and "recency e = found d ts a u"
  shows "github_env (activity_check (event_name e) (recency e) now) = [(''GHA_REPO_ALIVE'', ''true'')] \<and>
    exec e init acts =
      exec (e\<lparr>event_name := ''schedule'',
               recency := found d (clock e Create_nightly_release Activity_check) a u\<rparr>) init acts"
proof -
  let ?e' = "e\<lparr>event_name := ''schedule'',
               recency := found d (clock e Create_nightly_release Activity_check) a u\<rparr>"
  have "finish ?e' j s = finish e j s" for j s
    using assms
    by (intro finish_same) (simp_all add: activity_check_found_status activity_check_found_env)
  then have "exec ?e' init acts = exec e init acts"
    by (rule exec_same)
  then show ?thesis
    using assms by (simp add: activity_check_found_env)
qed

theorem manual_run_is_not_gated_witness:
  "manual (event_name manual_stale_env) \<and>
   exec manual_stale_env init schedule =
     exec (manual_stale_env\<lparr>event_name := ''schedule'',
        recency := found ''2021-08-07T00:05:00Z''
           (clock manual_stale_env Create_nightly_release Activity_check) ''RuffleBuild''
           ''https://github.com/ruffle-rs/ruffle/commit/1''\<rparr>) init schedule \<and>
   status (exec manual_stale_env init schedule) Publish_aur_package = Done Success"
proof -
  have 1: "manual (event_name manual_stale_env)"
    by (simp add: manual_stale_env_def manual_def)
  have 2: "recency manual_stale_env = found ''2021-08-07T00:05:00Z'' 1628294700 ''RuffleBuild''
                  ''https://github.com/ruffle-rs/ruffle/commit/1''"
    by (simp add: manual_stale_env_def)
  have 3: "status (exec manual_stale_env init schedule) Publish_aur_package = Done Success"
    by (simp add: manual_stale_env_def example_env_def run_defs)
  from manual_run_is_not_gated [OF 1 2, of 0 schedule] 1 3 show ?thesis
    by blast
qed

text \<open>
  The claim C7 as stated fails: in a manual run whose lookup fails (here \<^verbatim>\<open>jq\<close> exits
  with 2 on the saved response), the script aborts before its test of the event name;
  no release is created, the build jobs are skipped and the run concludes with failure.
\<close>

theorem manual_run_counterexample:
  "manual (event_name rate_limited_env) \<and>
   fst (committer_date (recency rate_limited_env)) = 2 \<and>
   releases (exec rate_limited_env init schedule) = [] \<and>
   status (exec rate_limited_env init schedule) (Build Linux_x86_64) = Done Skipped \<and>
   status (exec rate_limited_env init schedule) Build_web = Done Skipped \<and>
   run_conclusion (exec rate_limited_env init schedule) = Failure"
proof -
  have l: "lookup_failed (recency rate_limited_env)"
    by (simp add: rate_limited_env_def example_env_def lookup_failed_def found_def)
  note run = create_steps_failed [OF l]
  have g: "env_lookup [] ''GHA_REPO_ALIVE'' \<noteq> ''true''"
    by (simp add: env_lookup_def)
  have f: "finished (exec rate_limited_env init schedule)"
    by (rule blocked_schedule [OF run g])
  have b: "blocked Failure [(Create_nightly_release, Activity_check, False)]
      (exec rate_limited_env init schedule)"
    by (rule blocked_exec [OF run _ g]) simp
  then have c: "run_conclusion (exec rate_limited_env init schedule) = Failure"
    using f by (simp add: blocked_final)
  have d: "is_done (status (exec rate_limited_env init schedule) (Build Linux_x86_64))"
     "is_done (status (exec rate_limited_env init schedule) Build_web)"
    using f by (simp_all add: finished_def all_jobs_def matrix_include_def)
  have "status (exec rate_limited_env init schedule) (Build Linux_x86_64) = Done Skipped"
    "status (exec rate_limited_env init schedule) Build_web = Done Skipped"
    using blocked_skipped [OF b] d by simp_all
  moreover have "releases (exec rate_limited_env init schedule) = []"
    using b unfolding blocked_def by simp
  ultimately show ?thesis
    using c by (simp add: rate_limited_env_def example_env_def manual_def found_def)
qed

subsection \<open>The build fan-out\<close>



















subsection \<open>The dates of a run\<close>

lemma published_inv_step:
  assumes "published_inv e s"
  shows "published_inv e (step_effect e j st s)"
  using assms
  by (cases j)
     (auto simp add: published_inv_def step_effect_def package_file_def
        universal_package_file_def)

lemma published_inv_trace:
  "published_inv e (s\<lparr>trace := x\<rparr>) = published_inv e s"
  by (simp add: published_inv_def)

lemma published_inv_run_steps:
  "published_inv e s \<Longrightarrow> published_inv e (snd (snd (run_steps e j xs ok g s)))"
  by (induction e j xs ok g s rule: run_steps.induct)
     (auto simp add: published_inv_step published_inv_trace)

lemma published_inv_exec: "published_inv e (exec e init acts)"
proof (rule exec_invariant)
  show "published_inv e init"
    by (simp add: published_inv_def init_def)
next
  fix s a
  assume inv: "published_inv e s"
  show "published_inv e (do_action e s a)"
  proof (cases a)
    case (Start j)
    with inv start_cases [of j s] show ?thesis
      by (auto simp add: published_inv_def)
  next
    case (Finish j)
    have "published_inv e s'" if "run_steps e j (job_steps j) True [] s = (ok, g, s')" for ok g s'
      using published_inv_run_steps [OF inv, of j "job_steps j" True "[]"] that by simp
    with Finish inv finish_cases [of e j s] show ?thesis
      by (auto simp add: published_inv_def)
  qed
qed

text \<open>
  C4, as amended. The clock is read once by each time step: two steps of
  \<^verbatim>\<open>create-nightly-release\<close> (dashes, underscores) and two of \<^verbatim>\<open>publish-aur-package\<close>
  (dashes, dots). The underscore date is read once and every stage that uses it (all
  asset names, both mirror commit messages) receives that one value. When the four
  readings fall on one UTC day, every dated string the run publishes (the release tag
  and title, the asset prefix, the mirror commit messages, the AUR version and commit
  message) is a rendering of that calendar day.
\<close>

theorem dates_of_a_run:
  assumes "clock e Create_nightly_release Get_current_time_with_dashes div 86400 = day"
    and "clock e Create_nightly_release Get_current_time_with_underscores div 86400 = day"
    and "clock e Publish_aur_package Get_current_time_with_dashes div 86400 = day"
    and "clock e Publish_aur_package Get_current_time_with_dots div 86400 = day"
  shows "set (releases (exec e init acts)) \<subseteq>
      {(''nightly-'' @ render_date CHR ''-'' (civil_from_days day),
        ''Nightly '' @ render_date CHR ''-'' (civil_from_days day))} \<and>
    set (aur_submissions (exec e init acts)) \<subseteq>
      {(render_date CHR ''.'' (civil_from_days day),
        ''Update to Nightly '' @ render_date CHR ''-'' (civil_from_days day))} \<and>
    set (mirror_pushes (exec e init acts)) \<subseteq>
      {(''ruffle-rs/demo'', ''Nightly build '' @ render_date CHR ''_'' (civil_from_days day)),
       (''ruffle-rs/js-docs'', ''Nightly build '' @ render_date CHR ''_'' (civil_from_days day))} \<and>
    list_all (\<lambda>x. take (length (''ruffle-nightly-'' @ render_date CHR ''_'' (civil_from_days day))) x
                  = ''ruffle-nightly-'' @ render_date CHR ''_'' (civil_from_days day))
      (assets (exec e init acts))"
proof -
  have t: "tag_name e = ''nightly-'' @ render_date CHR ''-'' (civil_from_days day)"
    "release_name e = ''Nightly '' @ render_date CHR ''-'' (civil_from_days day)"
    using assms(1) by (simp_all add: tag_name_def release_name_def format_time_def)
  have p: "package_prefix e = ''ruffle-nightly-'' @ render_date CHR ''_'' (civil_from_days day)"
    "mirror_commit_message e = ''Nightly build '' @ render_date CHR ''_'' (civil_from_days day)"
    using assms(2)
    by (simp_all add: package_prefix_def mirror_commit_message_def date_output_def format_time_def)
  have a: "pkgbuild_version e = render_date CHR ''.'' (civil_from_days day)"
    "aur_commit_message e = ''Update to Nightly '' @ render_date CHR ''-'' (civil_from_days day)"
    using assms(3,4) by (simp_all add: pkgbuild_version_def aur_commit_message_def format_time_def)
  show ?thesis
    using published_inv_exec [of e acts] unfolding published_inv_def t p a .
qed

lemma midnight_run:
  "dated_items (exec midnight_env init schedule) =
     ([(tag_name midnight_env, release_name midnight_env)],
      [(pkgbuild_version midnight_env, aur_commit_message midnight_env)])"
  by (simp add: midnight_env_def example_env_def run_defs dated_items_def)

lemma render_date_examples:
  "render_date CHR ''-'' (civil_from_days 18876) = ''2021-09-06''"
  "render_date CHR ''.'' (civil_from_days 18876) = ''2021.09.06''"
  "render_date CHR ''_'' (civil_from_days 18876) = ''2021_09_06''"
  by code_simp+

lemma format_time_examples:
  "format_time CHR ''-'' 1630886100 = ''2021-09-05''"
  "format_time CHR ''-'' 1630887900 = ''2021-09-06''"
  "format_time CHR ''.'' 1630887900 = ''2021.09.06''"
  by code_simp+

theorem dates_of_a_run_witness:
  "set (releases (exec example_env init schedule)) \<subseteq>
      {(''nightly-2021-09-06'', ''Nightly 2021-09-06'')} \<and>
   set (aur_submissions (exec example_env init schedule)) \<subseteq>
      {(''2021.09.06'', ''Update to Nightly 2021-09-06'')} \<and>
   set (mirror_pushes (exec example_env init schedule)) \<subseteq>
      {(''ruffle-rs/demo'', ''Nightly build 2021_09_06''),
       (''ruffle-rs/js-docs'', ''Nightly build 2021_09_06'')}"
proof -
  have c: "clock example_env j st div 86400 = 18876" for j st
    by (simp add: example_env_def)
  from dates_of_a_run [OF c c c c, of schedule] show ?thesis
    unfolding render_date_examples by simp
qed

text \<open>
  The claim C4 as stated fails: the time steps of \<^verbatim>\<open>publish-aur-package\<close> read the clock
  again, after the builds. In a run that starts at 23:55 the release is tagged with the
  5th and the AUR package is versioned with the 6th.
\<close>

theorem dates_counterexample:
  "releases (exec midnight_env init schedule) = [(''nightly-2021-09-05'', ''Nightly 2021-09-05'')] \<and>
   aur_submissions (exec midnight_env init schedule) =
     [(''2021.09.06'', ''Update to Nightly 2021-09-06'')]"
proof -
  have d: "tag_name midnight_env = ''nightly-2021-09-05''"
    "release_name midnight_env = ''Nightly 2021-09-05''"
    "pkgbuild_version midnight_env = ''2021.09.06''"
    "aur_commit_message midnight_env = ''Update to Nightly 2021-09-06''"
    by (simp_all add: tag_name_def release_name_def pkgbuild_version_def aur_commit_message_def
        midnight_env_def example_env_def format_time_examples)
  have "(releases (exec midnight_env init schedule), aur_submissions (exec midnight_env init schedule))
    = ([(tag_name midnight_env, release_name midnight_env)],
       [(pkgbuild_version midnight_env, aur_commit_message midnight_env)])"
    using midnight_run unfolding dated_items_def .
  then show ?thesis
    unfolding d by (simp only: prod.inject)
qed

subsection \<open>The mirror updates\<close>

lemma map_of_filter_key:
  "map_of (filter (\<lambda>(k, v). P k) xs) k = (if P k then map_of xs k else None)"
  by (induction xs) auto

lemma commit_amend_result:
  assumes "commit_amend msg t b = Inr b'"
  shows "b \<noteq> [] \<and> b' = \<lparr>message = msg, files = t\<rparr> # tl b"
  using assms by (cases b) (auto simp add: commit_amend_def split: if_splits)

lemma mirror_update_result:
  assumes "mirror_update change date b = Inr b'"
  shows "b \<noteq> [] \<and> length b' = length b \<and> tl b' = tl b \<and>
    message (hd b') = ''Nightly build '' @ date \<and> change (files (hd b)) = Inr (files (hd b'))"
proof (cases b)
  case Nil
  with assms show ?thesis by (simp add: mirror_update_def)
next
  case (Cons c rest)
  with assms obtain t where t: "change (files c) = Inr t"
    and a: "commit_amend (''Nightly build '' @ date) t b = Inr b'"
    by (auto simp add: mirror_update_def split: sum.splits)
  from commit_amend_result [OF a] Cons t show ?thesis
    by simp
qed

text \<open>
  C5, as amended. Two mirror updates in sequence, each of which succeeds, leave the
  target branch with exactly as many commits as it had before: each run replaces the
  tip commit by a commit on the same parents whose message is \<^verbatim>\<open>Nightly build\<close> followed
  by the date of that run, and appends nothing. The commits below the tip are those of
  the branch before the runs. This holds for the demo mirror and for the JS docs mirror.
\<close>

theorem mirror_update_twice:
  assumes "mirror_web_demo d1 dist1 demo = Inr demo1" and "mirror_web_demo d2 dist2 demo1 = Inr demo2"
    and "mirror_js_docs d1 docs1 js = Inr js1" and "mirror_js_docs d2 docs2 js1 = Inr js2"
  shows "length demo1 = length demo \<and> length demo2 = length demo \<and> tl demo2 = tl demo \<and>
    message (hd demo1) = ''Nightly build '' @ d1 \<and> message (hd demo2) = ''Nightly build '' @ d2 \<and>
    length js1 = length js \<and> length js2 = length js \<and> tl js2 = tl js \<and>
    message (hd js1) = ''Nightly build '' @ d1 \<and> message (hd js2) = ''Nightly build '' @ d2"
  using mirror_update_result [OF assms(1) [unfolded mirror_web_demo_def]]
    mirror_update_result [OF assms(2) [unfolded mirror_web_demo_def]]
    mirror_update_result [OF assms(3) [unfolded mirror_js_docs_def]]
    mirror_update_result [OF assms(4) [unfolded mirror_js_docs_def]]
  by simp

lemmas mirror_defs = mirror_web_demo_def mirror_js_docs_def mirror_update_def update_web_demo_def
  update_js_docs_def old_build_def glob_suffix_def visible_def top_file_def is_dir_def
  commit_amend_def Let_def

lemma demo_run_1: "mirror_web_demo ''2021_09_05'' demo_dist demo_branch = Inr demo_branch_1"
  by (simp add: mirror_defs demo_branch_def demo_dist_def demo_branch_1_def)

lemma demo_run_2: "mirror_web_demo ''2021_09_06'' demo_dist demo_branch_1 = Inr demo_branch_2"
  by (simp add: mirror_defs demo_dist_def demo_branch_1_def demo_branch_2_def)

lemma docs_run_1: "mirror_js_docs ''2021_09_05'' docs_dir docs_branch = Inr docs_branch_1"
  by (simp add: mirror_defs docs_branch_def docs_dir_def docs_branch_1_def)

lemma docs_run_2: "mirror_js_docs ''2021_09_06'' docs_dir docs_branch_1 = Inr docs_branch_2"
  by (simp add: mirror_defs docs_dir_def docs_branch_1_def docs_branch_2_def)

theorem mirror_update_twice_witness:
  "length demo_branch_2 = length demo_branch \<and> tl demo_branch_2 = tl demo_branch \<and>
   message (hd demo_branch_2) = ''Nightly build 2021_09_06'' \<and>
   length docs_branch_2 = length docs_branch \<and> tl docs_branch_2 = tl docs_branch \<and>
   message (hd docs_branch_2) = ''Nightly build 2021_09_06''"
  using mirror_update_twice [OF demo_run_1 demo_run_2 docs_run_1 docs_run_2]
  by simp

text \<open>
  The claim C5 as stated fails: the example mirror has two commits before the runs and
  two commits after them, not three; the former tip commit is gone.
\<close>

theorem mirror_update_counterexample:
  "mirror_web_demo ''2021_09_05'' demo_dist demo_branch = Inr demo_branch_1 \<and>
   mirror_web_demo ''2021_09_06'' demo_dist demo_branch_1 = Inr demo_branch_2 \<and>
   length demo_branch = 2 \<and> length demo_branch_2 = 2 \<and>
   map message demo_branch = [''Nightly build 2021_09_04'', ''Initial commit''] \<and>
   map message demo_branch_2 = [''Nightly build 2021_09_06'', ''Initial commit'']"
  using demo_run_1 demo_run_2
  by (simp add: demo_branch_def demo_branch_2_def)

subsection \<open>What the demo update leaves untouched\<close>

text \<open>
  C10. When the demo update succeeds, the files of the mirror's work tree afterwards
  are: each visible top-level file of the fresh build, with its fresh content; no other
  top-level file matching \<^verbatim>\<open>*.js\<close>, \<^verbatim>\<open>*.wasm\<close> or \<^verbatim>\<open>*.html\<close>; and every other file of the
  mirror, in subdirectories or not, with the content it had.
\<close>

theorem update_web_demo_frame:
  assumes "update_web_demo dist t = Inr t'"
  shows "map_of t' p =
    (if top_file p \<and> visible (hd p) \<and> map_of dist p \<noteq> None then map_of dist p
     else if top_file p \<and> old_build (hd p) then None
     else map_of t p)"
proof -
  let ?t1 = "filter (\<lambda>(p, c). \<not> (top_file p \<and> old_build (hd p))) t"
  let ?copied = "filter (\<lambda>(p, c). top_file p \<and> visible (hd p)) dist"
  have t': "t' = ?copied @ filter (\<lambda>(p, c). map_of ?copied p = None) ?t1"
    using assms by (simp add: update_web_demo_def Let_def split: if_splits)
  have c: "map_of ?copied p = (if top_file p \<and> visible (hd p) then map_of dist p else None)"
    by (rule map_of_filter_key)
  have 1: "map_of ?t1 p = (if \<not> (top_file p \<and> old_build (hd p)) then map_of t p else None)"
    by (rule map_of_filter_key)
  have 2: "map_of (filter (\<lambda>(p, c). map_of ?copied p = None) ?t1) p
      = (if map_of ?copied p = None then map_of ?t1 p else None)"
    by (rule map_of_filter_key)
  show ?thesis
    unfolding t' map_of_append map_add_def 2 1 c
    by (auto split: option.splits)
qed

theorem update_web_demo_frame_witness:
  "update_web_demo demo_dist (files (hd demo_branch)) = Inr (files (hd demo_branch_1)) \<and>
   map_of (files (hd demo_branch_1)) [''index.html''] = Some ''new page'' \<and>
   map_of (files (hd demo_branch_1)) [''stale.wasm''] = None \<and>
   map_of (files (hd demo_branch_1)) [''.keep.js''] = Some ''hidden'' \<and>
   map_of (files (hd demo_branch_1)) [''swfs'', ''player.js''] = Some ''nested script''"
proof -
  have u: "update_web_demo demo_dist (files (hd demo_branch)) = Inr (files (hd demo_branch_1))"
    by (simp add: mirror_defs demo_branch_def demo_dist_def demo_branch_1_def)
  note f = update_web_demo_frame [OF u]
  have "map_of (files (hd demo_branch_1)) [''index.html''] = Some ''new page''"
    using f [of "[''index.html'']"]
    by (simp add: demo_dist_def top_file_def visible_def)
  moreover have "map_of (files (hd demo_branch_1)) [''stale.wasm''] = None"
    using f [of "[''stale.wasm'']"]
    by (simp add: demo_dist_def top_file_def visible_def old_build_def glob_suffix_def)
  moreover have "map_of (files (hd demo_branch_1)) [''.keep.js''] = Some ''hidden''"
    using f [of "[''.keep.js'']"]
    by (simp add: demo_dist_def demo_branch_def top_file_def visible_def old_build_def
        glob_suffix_def)
  moreover have "map_of (files (hd demo_branch_1)) [''swfs'', ''player.js''] = Some ''nested script''"
    using f [of "[''swfs'', ''player.js'']"]
    by (simp add: demo_dist_def demo_branch_def top_file_def)
  ultimately show ?thesis
    using u by simp
qed

subsection \<open>Archive names\<close>













subsection \<open>The decision of the Activity Gate\<close>

lemma lookup_ok_found:
  assumes "\<not> lookup_failed l"
  shows "l = found (snd (committer_date l)) (snd (timestamp l)) (snd (author l)) (snd (url l))"
  using assms by (cases l) (auto simp add: lookup_failed_def found_def)

text \<open>
  C1, as amended. For every pipeline run whose lookup commands all succeed, with \<open>ts\<close>
  the timestamp they print: the Activity check exits with status 0 and writes
  \<^verbatim>\<open>GHA_REPO_ALIVE=true\<close> exactly when the trigger is manual or
  \<open>days = floor ((now - ts) / 86400)\<close> is less than 1; otherwise it writes nothing, so
  the gate is not alive for every \<open>days \<ge> 1\<close> of a scheduled run. The script's truncating
  division and its string comparison \<^verbatim>\<open>[[ $days < 1 ]]\<close> decide the same as the floor and
  the numeric comparison. The decision is what \<^verbatim>\<open>create-nightly-release\<close> publishes as
  its output \<^verbatim>\<open>activity_check\<close>, whatever its later steps do.
\<close>

theorem activity_gate_decision:
  assumes "\<not> lookup_failed l"
  shows "exit_status (activity_check ev l now) = 0 \<and>
   github_env (activity_check ev l now) =
     (if manual ev then [(''GHA_REPO_ALIVE'', ''true'')]
      else if (now - snd (timestamp l)) div 86400 < 1 then [(''GHA_REPO_ALIVE'', ''true'')]
      else []) \<and>
   activity_check_out (exec (e\<lparr>recency := l\<rparr>) init
      [Start Create_nightly_release, Finish Create_nightly_release]) =
     (if manual (event_name e) then ''true''
      else if (clock e Create_nightly_release Activity_check - snd (timestamp l)) div 86400 < 1
      then ''true'' else [])"
proof -
  obtain d ts a u where l: "l = found d ts a u"
    using lookup_ok_found [OF assms] by blast
  have ts: "snd (timestamp l) = ts"
    by (simp add: l found_def)
  have "activity_check_out (exec (e\<lparr>recency := found d ts a u\<rparr>) init
      [Start Create_nightly_release, Finish Create_nightly_release]) =
     (if manual (event_name e) then ''true''
      else if (clock e Create_nightly_release Activity_check - ts) div 86400 < 1 then ''true''
      else [])"
    by (simp add: init_def start_def finish_def cancelled_by_fail_fast_def step_succeeds_def
        step_env_def step_effect_def always_def env_lookup_def activity_check_found_status
        activity_check_found_env)
  then show ?thesis
    unfolding ts unfolding l
    by (simp add: activity_check_found_status activity_check_found_env)
qed

theorem activity_gate_decision_witness:
  "github_env (activity_check ''schedule'' (found ''2021-09-04T00:05:00Z'' 1630713900 [] [])
      1630886700) = [] \<and>
   github_env (activity_check ''schedule'' (found ''2021-09-05T20:05:00Z'' 1630872300 [] [])
      1630886700) = [(''GHA_REPO_ALIVE'', ''true'')] \<and>
   github_env (activity_check ''workflow_dispatch'' (found ''2021-08-07T00:05:00Z'' 1628294700 [] [])
      1630886700) = [(''GHA_REPO_ALIVE'', ''true'')]"
proof -
  have ok: "\<not> lookup_failed (found d ts a u)" for d ts a u
    by (simp add: lookup_failed_def found_def)
  show ?thesis
    using activity_gate_decision [OF ok, of "''schedule''" "''2021-09-04T00:05:00Z''" 1630713900
        "[]" "[]" 1630886700 example_env]
      activity_gate_decision [OF ok, of "''schedule''" "''2021-09-05T20:05:00Z''" 1630872300
        "[]" "[]" 1630886700 example_env]
      activity_gate_decision [OF ok, of "''workflow_dispatch''" "''2021-08-07T00:05:00Z''"
        1628294700 "[]" "[]" 1630886700 example_env]
    by (simp add: manual_def found_def)
qed

text \<open>
  The claim C1 as stated fails: in a manual run whose lookup fails (here \<^verbatim>\<open>curl\<close> exits
  with 6), the script stops before its test of the event name, writes nothing to
  \<^verbatim>\<open>$GITHUB_ENV\<close>, and the output \<^verbatim>\<open>activity_check\<close> stays empty.
\<close>

theorem activity_gate_counterexample:
  "manual (event_name manual_unreachable_env) \<and>
   fetch (recency manual_unreachable_env) = 6 \<and>
   github_env (activity_check (event_name manual_unreachable_env) (recency manual_unreachable_env)
      (clock manual_unreachable_env Create_nightly_release Activity_check)) = [] \<and>
   activity_check_out (exec manual_unreachable_env init
      [Start Create_nightly_release, Finish Create_nightly_release]) = []"
proof -
  have l: "lookup_failed (recency manual_unreachable_env)"
    by (simp add: manual_unreachable_env_def unreachable_env_def example_env_def
        lookup_failed_def found_def)
  note f = activity_check_failed [OF l, of "event_name manual_unreachable_env"
      "clock manual_unreachable_env Create_nightly_release Activity_check"]
  have "activity_check_out (exec manual_unreachable_env init
      [Start Create_nightly_release, Finish Create_nightly_release]) = []"
    using f
    by (simp add: init_def start_def finish_def cancelled_by_fail_fast_def step_succeeds_def
        step_env_def always_def env_lookup_def)
  with f show ?thesis
    by (simp add: manual_unreachable_env_def unreachable_env_def example_env_def manual_def
        found_def)
qed

end
